theory Spec2Isabelle
  imports Complex_Main "HOL-Library.AList" "HOL-Library.Sublist"
begin

section \<open>JavaScript strings and the platform's string functions\<close>

text \<open>
  A JavaScript string is a sequence of UTF-16 code units; \<open>length\<close>, \<open>split\<close>,
  \<open>trim\<close> and the regular expressions of the sources (none has the \<open>u\<close> flag) all
  work on code units. A code unit is kept as its number.
\<close>

type_synonym jsstring = "nat list"

definition js :: "string \<Rightarrow> jsstring" where
  \<comment> \<open>an ASCII literal of the source\<close>
  "js s = map of_char s"

text \<open>
  \<open>toLowerCase\<close>, \<open>toUpperCase\<close> and \<open>normalize('NFD')\<close> are built into the engine
  and read the Unicode tables; the functions of the repository take them as a parameter.
\<close>

record platform =
  toLowerCase :: "jsstring \<Rightarrow> jsstring"
  toUpperCase :: "jsstring \<Rightarrow> jsstring"
  normalizeNFD :: "jsstring \<Rightarrow> jsstring"

definition isWhiteSpace :: "nat \<Rightarrow> bool" where
  \<comment> \<open>WhiteSpace and LineTerminator of ECMAScript: what \<open>trim\<close> removes and \<open>\s\<close> matches\<close>
  "isWhiteSpace c \<longleftrightarrow>
     c \<in> set [9, 10, 11, 12, 13, 32, 160, 5760, 8232, 8233, 8239, 8287, 12288, 65279]
     \<or> (8192 \<le> c \<and> c \<le> 8202)"

definition trim :: "jsstring \<Rightarrow> jsstring" where
  "trim s = rev (dropWhile isWhiteSpace (rev (dropWhile isWhiteSpace s)))"

fun split_sep :: "nat \<Rightarrow> jsstring \<Rightarrow> jsstring list" where
  \<comment> \<open>\<open>s.split(sep)\<close> for a separator of one code unit\<close>
  "split_sep sep [] = [[]]"
| "split_sep sep (c # cs) =
     (if c = sep then [] # split_sep sep cs
      else (case split_sep sep cs of
              [] \<Rightarrow> [[c]]
            | p # ps \<Rightarrow> (c # p) # ps))"

definition replace_unit :: "nat \<Rightarrow> nat \<Rightarrow> jsstring \<Rightarrow> jsstring" where
  \<comment> \<open>\<open>s.split(x).join(y)\<close> for one code unit \<open>x\<close> and one code unit \<open>y\<close>\<close>
  "replace_unit x y s = map (\<lambda>c. if c = x then y else c) s"

subsection \<open>Case-insensitive matching of a regular expression without the u flag\<close>

definition canonicalize :: "platform \<Rightarrow> nat \<Rightarrow> nat" where
  \<comment> \<open>Canonicalize of ECMAScript for \<open>ignoreCase\<close>: the upper case of the code unit when
      that is one code unit, and never from outside ASCII into ASCII\<close>
  "canonicalize P ch =
     (case toUpperCase P [ch] of
        [cu] \<Rightarrow> if 128 \<le> ch \<and> cu < 128 then ch else cu
      | _ \<Rightarrow> ch)"

fun match_literal :: "platform \<Rightarrow> jsstring \<Rightarrow> jsstring \<Rightarrow> jsstring option" where
  \<comment> \<open>a literal pattern matched at the start of the input with flag \<open>i\<close>: the rest of the
      input after the match\<close>
  "match_literal P [] s = Some s"
| "match_literal P (a # as) [] = None"
| "match_literal P (a # as) (c # cs) =
     (if canonicalize P a = canonicalize P c then match_literal P as cs else None)"

section \<open>The answer matcher (app/(tabs)/learn.tsx)\<close>

definition ARTICLES :: "jsstring list" where
  "ARTICLES = map js
     [''o'', ''a'', ''os'', ''as'', ''um'', ''uma'', ''uns'', ''umas'',
      ''le'', ''la'', ''les'', ''l'' @ [CHR 0x27], ''un'', ''une'', ''des'', ''du'', ''de la'',
      ''de l'' @ [CHR 0x27]]"

definition accentMap :: "(nat \<times> nat) list" where
  \<comment> \<open>the entries of the object literal, in the order \<open>Object.entries\<close> lists them\<close>
  "accentMap =
     [(224, 97), (225, 97), (226, 97), (227, 97), (228, 97), (229, 97),
      (232, 101), (233, 101), (234, 101), (235, 101),
      (236, 105), (237, 105), (238, 105), (239, 105),
      (242, 111), (243, 111), (244, 111), (245, 111), (246, 111),
      (249, 117), (250, 117), (251, 117), (252, 117),
      (241, 110), (231, 99), (253, 121), (255, 121),
      (192, 65), (193, 65), (194, 65), (195, 65), (196, 65), (197, 65),
      (200, 69), (201, 69), (202, 69), (203, 69),
      (204, 73), (205, 73), (206, 73), (207, 73),
      (210, 79), (211, 79), (212, 79), (213, 79), (214, 79),
      (217, 85), (218, 85), (219, 85), (220, 85),
      (209, 78), (199, 67), (221, 89)]"

definition isCombiningMark :: "nat \<Rightarrow> bool" where
  \<comment> \<open>the class of U+0300 .. U+036F in the regular expression\<close>
  "isCombiningMark c \<longleftrightarrow> 768 \<le> c \<and> c \<le> 879"

definition removeAccents :: "platform \<Rightarrow> jsstring \<Rightarrow> jsstring" where
  "removeAccents P text =
     (let result = filter (\<lambda>c. \<not> isCombiningMark c) (normalizeNFD P text)
      in fold (\<lambda>(accented, plain) result. replace_unit accented plain result) accentMap result)"

definition sortedArticles :: "jsstring list" where
  \<comment> \<open>\<open>[...ARTICLES].sort((a, b) => b.length - a.length)\<close>; the sort of an array is
      stable, so articles of one length keep their order\<close>
  "sortedArticles = sort_key (\<lambda>a. - int (length a)) ARTICLES"

definition replace_article_space :: "platform \<Rightarrow> jsstring \<Rightarrow> jsstring \<Rightarrow> jsstring" where
  \<comment> \<open>\<open>s.replace(new RegExp(`^${article}\\s+`, 'i'), '')\<close>\<close>
  "replace_article_space P article s =
     (case match_literal P article s of
        None \<Rightarrow> s
      | Some rest \<Rightarrow>
          (case rest of
             [] \<Rightarrow> s
           | c # cs \<Rightarrow> if isWhiteSpace c then dropWhile isWhiteSpace cs else s))"

definition replace_article_alone :: "platform \<Rightarrow> jsstring \<Rightarrow> jsstring \<Rightarrow> jsstring" where
  \<comment> \<open>\<open>s.replace(new RegExp(`^${article}$`, 'i'), '')\<close>\<close>
  "replace_article_alone P article s =
     (case match_literal P article s of
        Some [] \<Rightarrow> []
      | _ \<Rightarrow> s)"

definition strip_article :: "platform \<Rightarrow> jsstring \<Rightarrow> jsstring \<Rightarrow> jsstring" where
  \<comment> \<open>the body of the loop over the articles: both patterns, one after the other\<close>
  "strip_article P article normalized =
     replace_article_alone P article (replace_article_space P article normalized)"

definition replace_elision :: "platform \<Rightarrow> jsstring \<Rightarrow> jsstring" where
  \<comment> \<open>\<open>s.replace(/^l'/i, '')\<close>\<close>
  "replace_elision P s = (case match_literal P [108, 39] s of None \<Rightarrow> s | Some rest \<Rightarrow> rest)"

definition normalizeForComparison :: "platform \<Rightarrow> jsstring \<Rightarrow> jsstring" where
  "normalizeForComparison P text =
     (let normalized = toLowerCase P (trim text);
          normalized = fold (strip_article P) sortedArticles normalized;
          normalized = replace_elision P normalized
      in trim normalized)"

definition singleAnswerMatches :: "platform \<Rightarrow> jsstring \<Rightarrow> jsstring \<Rightarrow> bool" where
  "singleAnswerMatches P userAnswer correctAnswer =
     (let userTrimmed = toLowerCase P (trim userAnswer);
          correctTrimmed = toLowerCase P (trim correctAnswer)
      in if userTrimmed = correctTrimmed then True
         else if removeAccents P userTrimmed = removeAccents P correctTrimmed then True
         else (let normalizedUser = normalizeForComparison P userAnswer;
                   normalizedCorrect = normalizeForComparison P correctAnswer
               in if normalizedUser = normalizedCorrect then True
                  else if removeAccents P normalizedUser = removeAccents P normalizedCorrect
                  then True
                  else False))"

fun any_valid :: "platform \<Rightarrow> jsstring \<Rightarrow> jsstring list \<Rightarrow> bool" where
  \<comment> \<open>the loop \<open>for (const valid of validAnswers)\<close> with its early return\<close>
  "any_valid P userAnswer [] = False"
| "any_valid P userAnswer (valid # rest) =
     (if singleAnswerMatches P userAnswer valid then True else any_valid P userAnswer rest)"

definition validAnswers :: "jsstring \<Rightarrow> jsstring list" where
  \<comment> \<open>\<open>correctAnswer.split('/').map(a => a.trim())\<close>\<close>
  "validAnswers correctAnswer = map trim (split_sep 47 correctAnswer)"

definition answersMatch :: "platform \<Rightarrow> jsstring \<Rightarrow> jsstring \<Rightarrow> bool" where
  "answersMatch P userAnswer correctAnswer =
     any_valid P userAnswer (validAnswers correctAnswer)"

subsection \<open>The Unicode tables on Basic Latin and Latin-1 Supplement\<close>

text \<open>
  The letters of Portuguese and French lie in the first 256 code points. On these the
  engine's functions are the following; a code unit outside is left as it is, so the
  concrete platform stands for the engine on strings of Latin-1 text only.
\<close>

definition latin1_lower :: "nat \<Rightarrow> nat" where
  "latin1_lower c =
     (if (65 \<le> c \<and> c \<le> 90) \<or> (192 \<le> c \<and> c \<le> 222 \<and> c \<noteq> 215) then c + 32 else c)"

definition latin1_upper :: "nat \<Rightarrow> jsstring" where
  "latin1_upper c =
     (if (97 \<le> c \<and> c \<le> 122) \<or> (224 \<le> c \<and> c \<le> 254 \<and> c \<noteq> 247) then [c - 32]
      else if c = 223 then [83, 83]
      else if c = 255 then [376]
      else if c = 181 then [924]
      else [c])"

definition latin1_decomposition :: "(nat \<times> jsstring) list" where
  \<comment> \<open>canonical decompositions of U+00C0 .. U+00DD; the small letters are 32 further\<close>
  "latin1_decomposition =
     [(192, [65, 768]), (193, [65, 769]), (194, [65, 770]), (195, [65, 771]),
      (196, [65, 776]), (197, [65, 778]), (199, [67, 807]),
      (200, [69, 768]), (201, [69, 769]), (202, [69, 770]), (203, [69, 776]),
      (204, [73, 768]), (205, [73, 769]), (206, [73, 770]), (207, [73, 776]),
      (209, [78, 771]),
      (210, [79, 768]), (211, [79, 769]), (212, [79, 770]), (213, [79, 771]),
      (214, [79, 776]),
      (217, [85, 768]), (218, [85, 769]), (219, [85, 770]), (220, [85, 776]),
      (221, [89, 769])]"

definition latin1_nfd :: "nat \<Rightarrow> jsstring" where
  "latin1_nfd c =
     (if c = 255 then [121, 776]
      else if 224 \<le> c \<and> c \<le> 253 then
        (case map_of latin1_decomposition (c - 32) of
           Some (b # marks) \<Rightarrow> (b + 32) # marks
         | _ \<Rightarrow> [c])
      else (case map_of latin1_decomposition c of Some d \<Rightarrow> d | None \<Rightarrow> [c]))"

definition latin1 :: platform where
  "latin1 = \<lparr> toLowerCase = map latin1_lower,
              toUpperCase = concat \<circ> map latin1_upper,
              normalizeNFD = concat \<circ> map latin1_nfd \<rparr>"

section \<open>The highlight segmentation (app/(tabs)/read.tsx)\<close>

record used_word =
  portuguese :: jsstring
  french :: jsstring

record story_result =
  story :: jsstring
  usedWords :: "used_word list"

definition isSyntaxCharacter :: "nat \<Rightarrow> bool" where
  \<comment> \<open>the class of the escaping \<open>replace\<close>: . * + ? ^ $ { } ( ) | [ ] and the backslash\<close>
  "isSyntaxCharacter c \<longleftrightarrow>
     c \<in> set [46, 42, 43, 63, 94, 36, 123, 125, 40, 41, 124, 91, 93, 92]"

fun escapeRegExp :: "jsstring \<Rightarrow> jsstring" where
  \<comment> \<open>\<open>w.replace(/[.*+?^${}()|[\]\\]/g, '\\$&')\<close>: a backslash before each of them\<close>
  "escapeRegExp [] = []"
| "escapeRegExp (c # cs) =
     (if isSyntaxCharacter c then 92 # c # escapeRegExp cs else c # escapeRegExp cs)"

fun join_bar :: "jsstring list \<Rightarrow> jsstring" where
  \<comment> \<open>\<open>patterns.join('|')\<close>\<close>
  "join_bar [] = []"
| "join_bar [p] = p"
| "join_bar (p # q # ps) = p @ 124 # join_bar (q # ps)"

definition sortedWords :: "used_word list \<Rightarrow> used_word list" where
  \<comment> \<open>\<open>[...usedWords].sort((a, b) => b.portuguese.length - a.portuguese.length)\<close>, stable\<close>
  "sortedWords ws = sort_key (\<lambda>w. - int (length (portuguese w))) ws"

definition pattern_source :: "used_word list \<Rightarrow> jsstring" where
  \<comment> \<open>the template \<open>`(${patterns.join('|')})`\<close> over the sorted, escaped words\<close>
  "pattern_source ws =
     40 # join_bar (map (\<lambda>w. escapeRegExp (portuguese w)) (sortedWords ws)) @ [41]"

text \<open>
  The regular expressions that \<open>pattern_source\<close> can build are one capturing group
  around alternatives of pattern characters and escaped syntax characters. The parser reads
  this fragment of the pattern grammar; on any other source text it gives \<open>None\<close>.
\<close>

fun cons_first :: "nat \<Rightarrow> jsstring list \<Rightarrow> jsstring list" where
  "cons_first c [] = [[c]]"
| "cons_first c (a # as) = (c # a) # as"

fun parse_disjunction :: "jsstring \<Rightarrow> jsstring list option" where
  "parse_disjunction [] = Some [[]]"
| "parse_disjunction (c # cs) =
     (if c = 92 then
        (case cs of
           [] \<Rightarrow> None
         | d # ds \<Rightarrow>
             if isSyntaxCharacter d then map_option (cons_first d) (parse_disjunction ds)
             else None)
      else if c = 124 then map_option (\<lambda>alts. [] # alts) (parse_disjunction cs)
      else if isSyntaxCharacter c then None
      else map_option (cons_first c) (parse_disjunction cs))"

definition parse_group :: "jsstring \<Rightarrow> jsstring list option" where
  \<comment> \<open>\<open>( Disjunction )\<close>: the alternatives of the one capturing group\<close>
  "parse_group src =
     (case src of
        [] \<Rightarrow> None
      | c # rest \<Rightarrow>
          if c = 40 \<and> rest \<noteq> [] \<and> last rest = 41 then parse_disjunction (butlast rest)
          else None)"

datatype pattern = NoPattern | InvalidPattern | RegExp "jsstring list"

definition highlightPattern :: "story_result option \<Rightarrow> pattern" where
  \<comment> \<open>\<open>null\<close> without used words; otherwise \<open>new RegExp(source, 'gi')\<close>, which gives the
      expression with its alternatives or throws on a source it cannot read\<close>
  "highlightPattern storyResult =
     (case storyResult of
        None \<Rightarrow> NoPattern
      | Some sr \<Rightarrow>
          if usedWords sr = [] then NoPattern
          else (case parse_group (pattern_source (usedWords sr)) of
                  None \<Rightarrow> InvalidPattern
                | Some alts \<Rightarrow> RegExp alts))"

fun match_alternatives :: "platform \<Rightarrow> jsstring list \<Rightarrow> jsstring \<Rightarrow> nat option" where
  \<comment> \<open>the group matched at the start of the input: the alternatives are tried from left to
      right and the first that matches is taken; the result is the number of code units
      matched\<close>
  "match_alternatives P [] s = None"
| "match_alternatives P (a # as) s =
     (case match_literal P a s of
        Some rest \<Rightarrow> Some (length a)
      | None \<Rightarrow> match_alternatives P as s)"

function split_loop :: "platform \<Rightarrow> jsstring list \<Rightarrow> jsstring \<Rightarrow> jsstring \<Rightarrow> jsstring list"
  where
  \<comment> \<open>the loop of \<open>RegExp.prototype[Symbol.split]\<close> at the indices \<open>p \<le> q\<close>: \<open>piece\<close> is
      the text from \<open>p\<close> to \<open>q\<close>, the last argument the text from \<open>q\<close> on. A match at \<open>q\<close>
      that ends at \<open>p\<close> is passed over; otherwise the piece and the text captured by the
      group are appended and both indices move to the end of the match\<close>
  "split_loop P alts piece [] = [piece]"
| "split_loop P alts piece (c # cs) =
     (case match_alternatives P alts (c # cs) of
        None \<Rightarrow> split_loop P alts (piece @ [c]) cs
      | Some n \<Rightarrow>
          if n = 0 \<and> piece = [] then split_loop P alts (piece @ [c]) cs
          else piece # take n (c # cs) # split_loop P alts [] (drop n (c # cs)))"
  by pat_completeness auto
termination
  by (relation "measure (\<lambda>(P, alts, piece, s). 2 * length s + (if piece = [] then 0 else 1))")
    auto

definition regexp_split :: "platform \<Rightarrow> jsstring list \<Rightarrow> jsstring \<Rightarrow> jsstring list" where
  \<comment> \<open>\<open>S.split(rx)\<close> without a limit; the empty string is split into no piece when the
      expression matches it and into itself otherwise\<close>
  "regexp_split P alts S =
     (if S = [] then (case match_alternatives P alts [] of None \<Rightarrow> [S] | Some _ \<Rightarrow> [])
      else split_loop P alts [] S)"

definition findMatchedWord :: "platform \<Rightarrow> story_result option \<Rightarrow> jsstring \<Rightarrow> used_word option"
  where
  "findMatchedWord P storyResult text =
     (case storyResult of
        None \<Rightarrow> None
      | Some sr \<Rightarrow>
          find (\<lambda>w. toLowerCase P (portuguese w) = toLowerCase P text) (usedWords sr))"

datatype segment = Plain jsstring | Highlighted jsstring used_word

fun segment_text :: "segment \<Rightarrow> jsstring" where
  "segment_text (Plain t) = t"
| "segment_text (Highlighted t w) = t"

definition renderStoryWithHighlights :: "platform \<Rightarrow> story_result option \<Rightarrow> segment list option"
  where
  \<comment> \<open>the texts of the \<open>Text\<close> elements in order, a highlighted one with the word its
      \<open>onPress\<close> selects; \<open>None\<close> when building the pattern has thrown\<close>
  "renderStoryWithHighlights P storyResult =
     (case highlightPattern storyResult of
        InvalidPattern \<Rightarrow> None
      | NoPattern \<Rightarrow> Some [Plain (case storyResult of None \<Rightarrow> [] | Some sr \<Rightarrow> story sr)]
      | RegExp alts \<Rightarrow>
          (case storyResult of
             None \<Rightarrow> Some [Plain []]
           | Some sr \<Rightarrow>
               if story sr = [] then Some [Plain (story sr)]
               else Some (map (\<lambda>part. case findMatchedWord P storyResult part of
                                        Some matchedWord \<Rightarrow> Highlighted part matchedWord
                                      | None \<Rightarrow> Plain part)
                            (regexp_split P alts (story sr)))))"

section \<open>Story selection (services/gemini.ts)\<close>

definition selection_limit :: "nat \<Rightarrow> int" where
  \<comment> \<open>\<open>Math.min(25, Math.max(15, Math.floor(words.length * 0.3)))\<close>. The product is taken
      exactly, with 3/10 for the double 0.3: the two differ by less than one part in
      \<open>2 ^ 54\<close>, which moves the product of an array length across no integer\<close>
  "selection_limit n = min 25 (max 15 \<lfloor>real n * 0.3\<rfloor>)"

definition selectedWords :: "used_word list \<Rightarrow> used_word list \<Rightarrow> used_word list" where
  \<comment> \<open>\<open>shuffled.slice(0, ...)\<close>, where \<open>shuffled\<close> is the copy of \<open>words\<close> as the sort with
      the random comparison left it\<close>
  "selectedWords words shuffled = take (nat (selection_limit (length words))) shuffled"

definition spec_selection_size :: "nat \<Rightarrow> int" where
  \<comment> \<open>the size as the specification words it: \<open>clamp(round(0.3 * N), 15, 25)\<close>, capped at
      \<open>N\<close> when \<open>N < 15\<close>\<close>
  "spec_selection_size n =
     (let k = min 25 (max 15 (round (0.3 * real n)))
      in if n < 15 then min k (int n) else k)"

section \<open>Backup import (utils/backup.ts)\<close>

datatype jsvalue =
    Undefined
  | Null
  | Boolean bool
  | Number rat
  | String jsstring
  | Array "jsvalue list"
  | Object "(jsstring \<times> jsvalue) list"

datatype import_error =
    ImportCancelled
  | SyntaxError
  | TypeError
  | InvalidBackupFileFormat
  | InvalidWordData

datatype document =
    Canceled
  | Malformed
  | Parsed jsvalue

fun get_prop :: "jsvalue \<Rightarrow> jsstring \<Rightarrow> import_error + jsvalue" where
  \<comment> \<open>\<open>v.key\<close> for a key that no prototype has: a \<open>TypeError\<close> on \<open>null\<close> and
      \<open>undefined\<close>, the own property of an object, \<open>undefined\<close> otherwise\<close>
  "get_prop Undefined key = Inl TypeError"
| "get_prop Null key = Inl TypeError"
| "get_prop (Object kvs) key = Inr (case map_of kvs key of Some v \<Rightarrow> v | None \<Rightarrow> Undefined)"
| "get_prop v key = Inr Undefined"

fun set_prop :: "jsvalue \<Rightarrow> jsstring \<Rightarrow> jsvalue \<Rightarrow> jsvalue" where
  \<comment> \<open>\<open>v.key = x\<close>; the sources assign to objects only\<close>
  "set_prop (Object kvs) key x = Object (AList.update key x kvs)"
| "set_prop v key x = v"

fun truthy :: "jsvalue \<Rightarrow> bool" where
  "truthy Undefined = False"
| "truthy Null = False"
| "truthy (Boolean b) = b"
| "truthy (Number r) = (r \<noteq> 0)"
| "truthy (String s) = (s \<noteq> [])"
| "truthy (Array vs) = True"
| "truthy (Object kvs) = True"

fun isArray :: "jsvalue \<Rightarrow> bool" where
  "isArray (Array vs) = True"
| "isArray v = False"

text \<open>
  \<open>Date.now()\<close> reads a clock: the state is the number of readings so far, and the
  reading number \<open>n\<close> is \<open>clock n\<close>.
\<close>

type_synonym clock = "nat \<Rightarrow> int"

definition date_now :: "clock \<Rightarrow> nat \<Rightarrow> jsvalue \<times> nat" where
  "date_now clock n = (Number (of_int (clock n)), Suc n)"

definition lacks :: "jsvalue \<Rightarrow> jsstring \<Rightarrow> import_error + bool" where
  \<comment> \<open>\<open>!word.key\<close>\<close>
  "lacks word key = (case get_prop word key of Inl e \<Rightarrow> Inl e | Inr v \<Rightarrow> Inr (\<not> truthy v))"

definition ensure_timestamp :: "clock \<Rightarrow> jsstring \<Rightarrow> jsvalue \<times> nat \<Rightarrow> jsvalue \<times> nat" where
  \<comment> \<open>\<open>if (!word.key) word.key = Date.now()\<close> on a word that is an object\<close>
  "ensure_timestamp clock key st =
     (case st of (word, n) \<Rightarrow>
        (case get_prop word key of
           Inr v \<Rightarrow>
             if \<not> truthy v then (case date_now clock n of (t, n') \<Rightarrow> (set_prop word key t, n'))
             else (word, n)
         | Inl e \<Rightarrow> (word, n)))"

definition validate_word :: "clock \<Rightarrow> nat \<Rightarrow> jsvalue \<Rightarrow> import_error + jsvalue \<times> nat" where
  \<comment> \<open>the body of the loop over \<open>data.words\<close>\<close>
  "validate_word clock n word =
     (case lacks word (js ''id'') of
        Inl e \<Rightarrow> Inl e
      | Inr True \<Rightarrow> Inl InvalidWordData
      | Inr False \<Rightarrow>
          (case lacks word (js ''portuguese'') of
             Inl e \<Rightarrow> Inl e
           | Inr True \<Rightarrow> Inl InvalidWordData
           | Inr False \<Rightarrow>
               (case lacks word (js ''french'') of
                  Inl e \<Rightarrow> Inl e
                | Inr True \<Rightarrow> Inl InvalidWordData
                | Inr False \<Rightarrow>
                    (case get_prop word (js ''examples'') of
                       Inl e \<Rightarrow> Inl e
                     | Inr ex \<Rightarrow>
                         (let word = (if \<not> isArray ex then set_prop word (js ''examples'') (Array [])
                                      else word)
                          in Inr (ensure_timestamp clock (js ''updatedAt'')
                                   (ensure_timestamp clock (js ''createdAt'') (word, n))))))))"

fun validate_words :: "clock \<Rightarrow> nat \<Rightarrow> jsvalue list \<Rightarrow> import_error + jsvalue list" where
  \<comment> \<open>\<open>for (const word of data.words)\<close>: the words as the loop leaves them, or the first
      error thrown\<close>
  "validate_words clock n [] = Inr []"
| "validate_words clock n (word # rest) =
     (case validate_word clock n word of
        Inl e \<Rightarrow> Inl e
      | Inr (word', n') \<Rightarrow>
          (case validate_words clock n' rest of
             Inl e \<Rightarrow> Inl e
           | Inr rest' \<Rightarrow> Inr (word' # rest')))"

definition importFromJson :: "clock \<Rightarrow> document \<Rightarrow> import_error + jsvalue list" where
  \<comment> \<open>from the result of the document picker and of \<open>JSON.parse\<close> on the file's text\<close>
  "importFromJson clock doc =
     (case doc of
        Canceled \<Rightarrow> Inl ImportCancelled
      | Malformed \<Rightarrow> Inl SyntaxError
      | Parsed data \<Rightarrow>
          (case get_prop data (js ''words'') of
             Inl e \<Rightarrow> Inl e
           | Inr ws \<Rightarrow>
               (case ws of
                  Array words \<Rightarrow> validate_words clock 0 words
                | _ \<Rightarrow> Inl InvalidBackupFileFormat)))"

abbreviation lacks_required :: "jsvalue \<Rightarrow> bool" where
  \<comment> \<open>one of the three tests \<open>!word.id || !word.portuguese || !word.french\<close> does not
      come out false\<close>
  "lacks_required word \<equiv>
     lacks word (js ''id'') \<noteq> Inr False \<or> lacks word (js ''portuguese'') \<noteq> Inr False
     \<or> lacks word (js ''french'') \<noteq> Inr False"

abbreviation repaired :: "clock \<Rightarrow> jsvalue \<Rightarrow> jsvalue \<Rightarrow> bool" where
  \<comment> \<open>what the specification says of an imported word \<open>w'\<close> against the word \<open>w\<close> of the
      file: \<open>examples\<close> is an array, both timestamps are there, nothing else has changed\<close>
  "repaired clock w w' \<equiv>
     (\<forall>k. k \<notin> {js ''examples'', js ''createdAt'', js ''updatedAt''}
        \<longrightarrow> get_prop w' k = get_prop w k)
     \<and> (\<exists>ex. get_prop w (js ''examples'') = Inr ex
           \<and> get_prop w' (js ''examples'') = Inr (if isArray ex then ex else Array []))
     \<and> (\<exists>c t. get_prop w (js ''createdAt'') = Inr c
           \<and> get_prop w' (js ''createdAt'')
               = Inr (if truthy c then c else Number (of_int (clock t))))
     \<and> (\<exists>u t. get_prop w (js ''updatedAt'') = Inr u
           \<and> get_prop w' (js ''updatedAt'')
               = Inr (if truthy u then u else Number (of_int (clock t))))"

section \<open>Properties of the answer matcher\<close>

subsection \<open>Evaluation and auxiliary facts\<close>

lemma ARTICLES_units:
  "ARTICLES =
     [[111], [97], [111, 115], [97, 115], [117, 109], [117, 109, 97], [117, 110, 115],
      [117, 109, 97, 115], [108, 101], [108, 97], [108, 101, 115], [108, 39], [117, 110],
      [117, 110, 101], [100, 101, 115], [100, 117], [100, 101, 32, 108, 97],
      [100, 101, 32, 108, 39]]"
  by (simp add: ARTICLES_def js_def)

lemma sortedArticles_units:
  "sortedArticles =
     [[100, 101, 32, 108, 97], [100, 101, 32, 108, 39], [117, 109, 97, 115],
      [117, 109, 97], [117, 110, 115], [108, 101, 115], [117, 110, 101], [100, 101, 115],
      [111, 115], [97, 115], [117, 109], [108, 101], [108, 97], [108, 39], [117, 110],
      [100, 117], [111], [97]]"
  unfolding sortedArticles_def ARTICLES_units by simp

lemma canonicalize_latin1:
  "canonicalize latin1 c =
     (if (97 \<le> c \<and> c \<le> 122) \<or> (224 \<le> c \<and> c \<le> 254 \<and> c \<noteq> 247) then c - 32
      else if c = 255 then 376 else if c = 181 then 924 else c)"
  by (simp add: canonicalize_def latin1_def latin1_upper_def) arith

lemma latin1_sel:
  "toLowerCase latin1 = map latin1_lower"
  "toUpperCase latin1 = concat \<circ> map latin1_upper"
  "normalizeNFD latin1 = concat \<circ> map latin1_nfd"
  by (simp_all add: latin1_def)

lemma normalizeForComparison_eq:
  "normalizeForComparison P text =
     trim (replace_elision P
       (fold (strip_article P) sortedArticles (toLowerCase P (trim text))))"
  unfolding normalizeForComparison_def Let_def ..

lemma singleAnswerMatches_eq:
  "singleAnswerMatches P a b \<longleftrightarrow>
     toLowerCase P (trim a) = toLowerCase P (trim b)
   \<or> removeAccents P (toLowerCase P (trim a)) = removeAccents P (toLowerCase P (trim b))
   \<or> normalizeForComparison P a = normalizeForComparison P b
   \<or> removeAccents P (normalizeForComparison P a)
       = removeAccents P (normalizeForComparison P b)"
  unfolding singleAnswerMatches_def Let_def by simp

lemma any_valid_iff:
  "any_valid P u vs \<longleftrightarrow> (\<exists>v\<in>set vs. singleAnswerMatches P u v)"
  by (induction vs) auto

lemmas eval_norm = normalizeForComparison_eq sortedArticles_units canonicalize_latin1
  strip_article_def replace_article_space_def replace_article_alone_def replace_elision_def
  trim_def isWhiteSpace_def latin1_sel latin1_lower_def js_def

lemma removeAccents_eq:
  "removeAccents P text =
     fold (\<lambda>(accented, plain) result. replace_unit accented plain result) accentMap
       (filter (\<lambda>c. \<not> isCombiningMark c) (normalizeNFD P text))"
  unfolding removeAccents_def Let_def ..

lemmas eval_acc = removeAccents_eq accentMap_def replace_unit_def isCombiningMark_def
  latin1_decomposition_def latin1_nfd_def

lemmas eval_match = singleAnswerMatches_eq eval_norm eval_acc

lemma split_sep_without: "sep \<notin> set c \<Longrightarrow> split_sep sep c = [c]"
  by (induction c) auto

lemma split_sep_not_Nil: "split_sep sep s \<noteq> []"
  by (induction s) (auto split: list.splits)

lemma split_sep_parts: "p \<in> set (split_sep sep s) \<Longrightarrow> sep \<notin> set p"
proof (induction s arbitrary: p)
  case Nil
  then show ?case by simp
next
  case (Cons c cs)
  show ?case
  proof (cases "c = sep")
    case True
    with Cons show ?thesis by auto
  next
    case False
    obtain q qs where q: "split_sep sep cs = q # qs"
      using split_sep_not_Nil [of sep cs] by (cases "split_sep sep cs") auto
    with False Cons.prems have "p = c # q \<or> p \<in> set qs" by auto
    moreover have "sep \<notin> set q" using Cons.IH [of q] q by simp
    moreover have "p \<in> set qs \<Longrightarrow> sep \<notin> set p" using Cons.IH [of p] q by simp
    ultimately show ?thesis using False by auto
  qed
qed

lemma split_sep_concat: "concat (split_sep sep s) = filter (\<lambda>c. c \<noteq> sep) s"
  by (induction s) (auto split: list.splits)

lemma split_sep_length: "length (split_sep sep s) = Suc (count_list s sep)"
  by (induction s) (auto split: list.splits simp add: split_sep_not_Nil)

lemma validAnswers_without: "47 \<notin> set c \<Longrightarrow> validAnswers c = [trim c]"
  by (simp add: validAnswers_def split_sep_without)

lemma match_literal_suffix: "match_literal P a s = Some r \<Longrightarrow> suffix r s"
  by (induction P a s rule: match_literal.induct) (auto split: if_splits intro: suffix_ConsI)

lemma dropWhile_suffix: "suffix (dropWhile Q s) s"
  by (metis suffixI takeWhile_dropWhile_id)

lemma replace_article_space_suffix: "suffix (replace_article_space P a s) s"
proof (cases "match_literal P a s")
  case None
  then show ?thesis by (simp add: replace_article_space_def)
next
  case (Some rest)
  then have r: "suffix rest s" by (rule match_literal_suffix)
  show ?thesis
  proof (cases rest)
    case Nil
    with Some show ?thesis by (simp add: replace_article_space_def)
  next
    case (Cons c cs)
    have "suffix (dropWhile isWhiteSpace cs) rest"
      using Cons dropWhile_suffix [of isWhiteSpace cs] by (auto intro: suffix_ConsI)
    then have "suffix (dropWhile isWhiteSpace cs) s" using r by (rule suffix_order.trans)
    with Some Cons show ?thesis by (simp add: replace_article_space_def)
  qed
qed

lemma replace_article_alone_suffix: "suffix (replace_article_alone P a s) s"
  by (auto simp add: replace_article_alone_def split: option.splits list.splits)

lemma strip_article_suffix: "suffix (strip_article P a s) s"
  unfolding strip_article_def
  by (rule suffix_order.trans [OF replace_article_alone_suffix replace_article_space_suffix])

lemma fold_strip_article_suffix: "suffix (fold (strip_article P) as s) s"
proof (induction as arbitrary: s)
  case Nil
  then show ?case by simp
next
  case (Cons a as)
  have "suffix (fold (strip_article P) as (strip_article P a s)) (strip_article P a s)"
    by (rule Cons.IH)
  then have "suffix (fold (strip_article P) as (strip_article P a s)) s"
    using strip_article_suffix by (rule suffix_order.trans)
  then show ?case by simp
qed

lemma replace_elision_suffix: "suffix (replace_elision P s) s"
  by (auto simp add: replace_elision_def split: option.splits dest: match_literal_suffix)

lemma normalizeForComparison_Nil:
  "toLowerCase P [] = [] \<Longrightarrow> normalizeForComparison P [] = []"
  by (simp add: normalizeForComparison_eq sortedArticles_units strip_article_def
      replace_article_space_def replace_article_alone_def replace_elision_def trim_def)

lemma removeAccents_Nil: "normalizeNFD P [] = [] \<Longrightarrow> removeAccents P [] = []"
  by (simp add: removeAccents_eq accentMap_def replace_unit_def)

lemma trim_Nil: "trim [] = []"
  by (simp add: trim_def)

lemma articles_alone_all:
  "list_all (\<lambda>a. normalizeForComparison latin1 a = [] \<and> validAnswers a = [a]) ARTICLES"
  unfolding ARTICLES_units
  apply (simp only: list.pred_inject simp_thms)
  apply (intro conjI)
  apply (simp_all add: eval_norm validAnswers_def)
  done

lemma articles_alone:
  "a \<in> set ARTICLES \<Longrightarrow> normalizeForComparison latin1 a = [] \<and> validAnswers a = [a]"
  using articles_alone_all by (simp add: list_all_iff)

lemma match_literal_iff:
  "match_literal P a s = Some r \<longleftrightarrow>
     length a \<le> length s
     \<and> map (canonicalize P) (take (length a) s) = map (canonicalize P) a
     \<and> r = drop (length a) s"
  by (induction P a s rule: match_literal.induct) auto

lemma match_literal_None_iff:
  "match_literal P a s = None \<longleftrightarrow>
     \<not> (length a \<le> length s
        \<and> map (canonicalize P) (take (length a) s) = map (canonicalize P) a)"
proof (cases "match_literal P a s")
  case None
  then show ?thesis using match_literal_iff [of P a s "drop (length a) s"] by auto
next
  case (Some r)
  then show ?thesis using match_literal_iff [of P a s r] by auto
qed

lemma replace_article_space_eq:
  "replace_article_space P a s =
     (if length a < length s
         \<and> map (canonicalize P) (take (length a) s) = map (canonicalize P) a
         \<and> isWhiteSpace (s ! length a)
      then dropWhile isWhiteSpace (drop (length a) s)
      else s)"
proof (cases "match_literal P a s")
  case None
  then show ?thesis
    using match_literal_None_iff [of P a s] by (auto simp add: replace_article_space_def)
next
  case (Some rest)
  then have m: "length a \<le> length s"
    "map (canonicalize P) (take (length a) s) = map (canonicalize P) a"
    "rest = drop (length a) s"
    using match_literal_iff [of P a s rest] by auto
  show ?thesis
  proof (cases rest)
    case Nil
    with m have "\<not> length a < length s" by simp
    with Some Nil show ?thesis by (simp add: replace_article_space_def)
  next
    case (Cons c cs)
    with m have lt: "length a < length s" by (cases "length a < length s") auto
    then have "drop (length a) s = s ! length a # drop (Suc (length a)) s"
      by (rule Cons_nth_drop_Suc [symmetric])
    with m(3) Cons have c: "c = s ! length a" and cs: "cs = drop (Suc (length a)) s"
      by simp_all
    show ?thesis
    proof (cases "isWhiteSpace c")
      case True
      then have "dropWhile isWhiteSpace (drop (length a) s) = dropWhile isWhiteSpace cs"
        using m(3) Cons by (metis dropWhile.simps(2))
      with True Some Cons lt m(2) c show ?thesis
        by (simp add: replace_article_space_def)
    next
      case False
      with Some Cons c show ?thesis by (simp add: replace_article_space_def)
    qed
  qed
qed

lemma replace_article_alone_eq:
  "replace_article_alone P a s =
     (if map (canonicalize P) s = map (canonicalize P) a then [] else s)"
proof (cases "match_literal P a s")
  case None
  then have "map (canonicalize P) s \<noteq> map (canonicalize P) a"
    using match_literal_None_iff [of P a s] by (metis length_map order_refl take_all)
  with None show ?thesis by (simp add: replace_article_alone_def)
next
  case (Some rest)
  then have m: "length a \<le> length s"
    "map (canonicalize P) (take (length a) s) = map (canonicalize P) a"
    "rest = drop (length a) s"
    using match_literal_iff [of P a s rest] by auto
  show ?thesis
  proof (cases rest)
    case Nil
    with m have "length s = length a" by simp
    with m(2) have "map (canonicalize P) s = map (canonicalize P) a" by simp
    with Some Nil show ?thesis by (simp add: replace_article_alone_def)
  next
    case (Cons c cs)
    with m have "length a < length s" by (cases "length a < length s") auto
    then have "map (canonicalize P) s \<noteq> map (canonicalize P) a"
      by (metis length_map less_irrefl)
    with Some Cons show ?thesis by (simp add: replace_article_alone_def)
  qed
qed

lemma strip_article_not_at_start:
  "match_literal P b t = None \<Longrightarrow> strip_article P b t = t"
  by (simp add: strip_article_def replace_article_space_def replace_article_alone_def)

lemma fold_strip_article_skip:
  "\<forall>b\<in>set pre. match_literal P b t = None \<Longrightarrow> fold (strip_article P) pre t = t"
  by (induction pre) (simp_all add: strip_article_not_at_start)

subsection \<open>What the matcher accepts\<close>

text \<open>
  C1. For every user answer \<open>u\<close> and correct answer \<open>c\<close>, \<open>answersMatch\<close> is true exactly
  when \<open>u\<close> matches one of the trimmed parts of \<open>c\<close> split at the slash (code unit 47).
  On the Latin-1 platform "casa" and "maison" match "maison / casa" and "voiture" does not.
\<close>
theorem answersMatch_any_variant:
  "(answersMatch P u c \<longleftrightarrow> (\<exists>v\<in>set (map trim (split_sep 47 c)). singleAnswerMatches P u v))
   \<and> answersMatch latin1 (js ''casa'') (js ''maison / casa'')
   \<and> answersMatch latin1 (js ''maison'') (js ''maison / casa'')
   \<and> \<not> answersMatch latin1 (js ''voiture'') (js ''maison / casa'')"
proof (intro conjI)
  show "answersMatch P u c \<longleftrightarrow> (\<exists>v\<in>set (map trim (split_sep 47 c)). singleAnswerMatches P u v)"
    unfolding answersMatch_def validAnswers_def by (rule any_valid_iff)
  show "answersMatch latin1 (js ''casa'') (js ''maison / casa'')"
    by (simp add: answersMatch_def validAnswers_def eval_match)
  show "answersMatch latin1 (js ''maison'') (js ''maison / casa'')"
    by (simp add: answersMatch_def validAnswers_def eval_match)
  show "\<not> answersMatch latin1 (js ''voiture'') (js ''maison / casa'')"
    by (simp add: answersMatch_def validAnswers_def eval_match)
qed

text \<open>
  C2. For every pair of strings, \<open>singleAnswerMatches\<close> is true exactly when one of four
  equalities holds between the trimmed lower-case strings: as they are, with accents
  removed, with the article stripped, or with the article stripped and then accents removed.
  The examples of the specification for accents, articles, elision and case follow.
\<close>
theorem singleAnswerMatches_four_equalities:
  "(singleAnswerMatches P a b \<longleftrightarrow>
      toLowerCase P (trim a) = toLowerCase P (trim b)
    \<or> removeAccents P (toLowerCase P (trim a)) = removeAccents P (toLowerCase P (trim b))
    \<or> normalizeForComparison P a = normalizeForComparison P b
    \<or> removeAccents P (normalizeForComparison P a) = removeAccents P (normalizeForComparison P b))
   \<and> answersMatch latin1 (js ''avi'' @ [227] @ js ''o'') (js ''aviao'')
   \<and> answersMatch latin1 (js ''aviao'') (js ''avi'' @ [227] @ js ''o'')
   \<and> answersMatch latin1 (js ''chien'') (js ''le chien'')
   \<and> answersMatch latin1 (js ''casa'') (js ''a casa'')
   \<and> answersMatch latin1 (js ''obligation'') (js (''l'' @ [CHR 0x27] @ ''obligation''))
   \<and> answersMatch latin1 (js ''CASA'') (js ''casa'')"
proof (intro conjI)
  show "singleAnswerMatches P a b \<longleftrightarrow>
      toLowerCase P (trim a) = toLowerCase P (trim b)
    \<or> removeAccents P (toLowerCase P (trim a)) = removeAccents P (toLowerCase P (trim b))
    \<or> normalizeForComparison P a = normalizeForComparison P b
    \<or> removeAccents P (normalizeForComparison P a) = removeAccents P (normalizeForComparison P b)"
    by (rule singleAnswerMatches_eq)
  show "answersMatch latin1 (js ''avi'' @ [227] @ js ''o'') (js ''aviao'')"
    by (simp add: answersMatch_def validAnswers_def eval_match)
  show "answersMatch latin1 (js ''aviao'') (js ''avi'' @ [227] @ js ''o'')"
    by (simp add: answersMatch_def validAnswers_def eval_match)
  show "answersMatch latin1 (js ''chien'') (js ''le chien'')"
    by (simp add: answersMatch_def validAnswers_def eval_match)
  show "answersMatch latin1 (js ''casa'') (js ''a casa'')"
    by (simp add: answersMatch_def validAnswers_def eval_match)
  show "answersMatch latin1 (js ''obligation'') (js (''l'' @ [CHR 0x27] @ ''obligation''))"
    by (simp add: answersMatch_def validAnswers_def eval_match)
  show "answersMatch latin1 (js ''CASA'') (js ''casa'')"
    by (simp add: answersMatch_def validAnswers_def eval_match)
qed

text \<open>
  C5, as stated, fails: the loop over the articles has no exit after a replacement, so from
  "de la la maison" it strips "de la" and, later in the same pass, "la". Stripping only the
  first article would leave "la maison".
\<close>
theorem normalizeForComparison_two_articles:
  "normalizeForComparison latin1 (js ''de la la maison'') = js ''maison''
   \<and> normalizeForComparison latin1 (js ''de la la maison'') \<noteq> js ''la maison''"
  by (simp add: eval_norm)

text \<open>
  C5, amended. Article normalization lower-cases the trimmed text and makes one pass over
  the articles in longest-first order, with no exit after a removal. At the turn of an
  article, the article is stripped, with the whitespace after it, if it stands at the
  start of the current text (whatever the case of its letters) followed by whitespace;
  the text is emptied if it then is exactly that article; otherwise the turn leaves the
  text as it is. The articles before the first one that stands at the start change
  nothing, and the pass goes on with the later articles on what is left, so more than one
  article can be stripped: "de la la maison" becomes "maison", while "la de la maison"
  becomes "de la maison", because "de la" is tried before "la". At the end a leading "l'"
  is removed and the text trimmed. For every input the result is a trimmed suffix of the
  trimmed lower-case input.
\<close>
theorem normalizeForComparison_one_pass:
  "normalizeForComparison P text
     = trim (replace_elision P
         (fold (strip_article P) sortedArticles (toLowerCase P (trim text))))
   \<and> sorted_wrt (\<lambda>a b. length b \<le> length a) sortedArticles
   \<and> set sortedArticles = set ARTICLES
   \<and> strip_article P a s = replace_article_alone P a (replace_article_space P a s)
   \<and> replace_article_space P a s =
       (if length a < length s
           \<and> map (canonicalize P) (take (length a) s) = map (canonicalize P) a
           \<and> isWhiteSpace (s ! length a)
        then dropWhile isWhiteSpace (drop (length a) s)
        else s)
   \<and> replace_article_alone P a s =
       (if map (canonicalize P) s = map (canonicalize P) a then [] else s)
   \<and> (sortedArticles = pre @ a # post \<and> (\<forall>b\<in>set pre. match_literal P b t = None)
        \<longrightarrow> fold (strip_article P) sortedArticles t
            = fold (strip_article P) post (strip_article P a t))
   \<and> ((\<forall>b\<in>set sortedArticles. match_literal P b t = None)
        \<longrightarrow> fold (strip_article P) sortedArticles t = t)
   \<and> replace_elision P s =
       (if 2 \<le> length s \<and> map (canonicalize P) (take 2 s) = map (canonicalize P) [108, 39]
        then drop 2 s else s)
   \<and> (\<exists>r. suffix r (toLowerCase P (trim text)) \<and> normalizeForComparison P text = trim r)
   \<and> normalizeForComparison latin1 (js ''de la la maison'') = js ''maison''
   \<and> normalizeForComparison latin1 (js ''la de la maison'') = js ''de la maison''
   \<and> normalizeForComparison latin1 (js ''de la maison'') = js ''maison''"
proof (intro conjI impI)
  show "normalizeForComparison P text
     = trim (replace_elision P
         (fold (strip_article P) sortedArticles (toLowerCase P (trim text))))"
    by (rule normalizeForComparison_eq)
  show "sorted_wrt (\<lambda>a b. length b \<le> length a) sortedArticles"
    unfolding sortedArticles_units by simp
  show "set sortedArticles = set ARTICLES"
    by (simp add: sortedArticles_def)
  show "strip_article P a s = replace_article_alone P a (replace_article_space P a s)"
    by (rule strip_article_def)
  show "replace_article_space P a s =
       (if length a < length s
           \<and> map (canonicalize P) (take (length a) s) = map (canonicalize P) a
           \<and> isWhiteSpace (s ! length a)
        then dropWhile isWhiteSpace (drop (length a) s)
        else s)"
    by (rule replace_article_space_eq)
  show "replace_article_alone P a s =
       (if map (canonicalize P) s = map (canonicalize P) a then [] else s)"
    by (rule replace_article_alone_eq)
next
  assume h: "sortedArticles = pre @ a # post \<and> (\<forall>b\<in>set pre. match_literal P b t = None)"
  then have e: "sortedArticles = pre @ a # post"
    and k: "fold (strip_article P) pre t = t"
    using fold_strip_article_skip by blast+
  have "fold (strip_article P) (pre @ a # post) t
            = fold (strip_article P) post (strip_article P a t)"
    using k by simp
  then show "fold (strip_article P) sortedArticles t
            = fold (strip_article P) post (strip_article P a t)"
    by (simp only: e)
next
  assume "\<forall>b\<in>set sortedArticles. match_literal P b t = None"
  then show "fold (strip_article P) sortedArticles t = t"
    by (rule fold_strip_article_skip)
next
  show "replace_elision P s =
       (if 2 \<le> length s \<and> map (canonicalize P) (take 2 s) = map (canonicalize P) [108, 39]
        then drop 2 s else s)"
  proof -
    have i: "match_literal P [108, 39] s = Some r \<longleftrightarrow>
        2 \<le> length s \<and> map (canonicalize P) (take 2 s) = map (canonicalize P) [108, 39]
        \<and> r = drop 2 s" for r
      using match_literal_iff [of P "[108, 39]" s r] by (simp add: numeral_2_eq_2)
    show ?thesis
    proof (cases "match_literal P [108, 39] s")
      case None
      with i [of "drop 2 s"] show ?thesis by (auto simp add: replace_elision_def)
    next
      case (Some rest)
      with i [of rest] show ?thesis by (auto simp add: replace_elision_def)
    qed
  qed
next
  let ?r = "replace_elision P (fold (strip_article P) sortedArticles (toLowerCase P (trim text)))"
  have "suffix ?r (toLowerCase P (trim text))"
    using replace_elision_suffix fold_strip_article_suffix by (rule suffix_order.trans)
  moreover have "normalizeForComparison P text = trim ?r"
    by (rule normalizeForComparison_eq)
  ultimately show "\<exists>r. suffix r (toLowerCase P (trim text)) \<and> normalizeForComparison P text = trim r"
    by blast
  show "normalizeForComparison latin1 (js ''de la la maison'') = js ''maison''"
    by (simp add: eval_norm)
  show "normalizeForComparison latin1 (js ''la de la maison'') = js ''de la maison''"
    by (simp add: eval_norm)
  show "normalizeForComparison latin1 (js ''de la maison'') = js ''maison''"
    by (simp add: eval_norm)
qed

theorem normalizeForComparison_one_pass_witness:
  "sortedArticles
     = [js ''de la'', js (''de l'' @ [CHR 0x27]), js ''umas'', js ''uma'', js ''uns'', js ''les'',
        js ''une'', js ''des'', js ''os'', js ''as'', js ''um'', js ''le'']
       @ js ''la'' # [js (''l'' @ [CHR 0x27]), js ''un'', js ''du'', js ''o'', js ''a'']
   \<and> list_all (\<lambda>b. match_literal latin1 b (js ''la maison'') = None)
        [js ''de la'', js (''de l'' @ [CHR 0x27]), js ''umas'', js ''uma'', js ''uns'', js ''les'',
         js ''une'', js ''des'', js ''os'', js ''as'', js ''um'', js ''le'']
   \<and> fold (strip_article latin1) sortedArticles (js ''la maison'')
       = fold (strip_article latin1)
           [js (''l'' @ [CHR 0x27]), js ''un'', js ''du'', js ''o'', js ''a'']
           (strip_article latin1 (js ''la'') (js ''la maison''))
   \<and> strip_article latin1 (js ''la'') (js ''la maison'') = js ''maison''
   \<and> fold (strip_article latin1) sortedArticles (js ''la maison'') = js ''maison''
   \<and> list_all (\<lambda>b. match_literal latin1 b (js ''maison'') = None) sortedArticles
   \<and> fold (strip_article latin1) sortedArticles (js ''maison'') = js ''maison''"
proof -
  let ?pre = "[js ''de la'', js (''de l'' @ [CHR 0x27]), js ''umas'', js ''uma'', js ''uns'',
               js ''les'', js ''une'', js ''des'', js ''os'', js ''as'', js ''um'', js ''le'']"
  let ?post = "[js (''l'' @ [CHR 0x27]), js ''un'', js ''du'', js ''o'', js ''a'']"
  have s: "sortedArticles = ?pre @ js ''la'' # ?post"
    unfolding sortedArticles_units by (simp add: js_def)
  have n: "list_all (\<lambda>b. match_literal latin1 b (js ''la maison'') = None) ?pre"
    apply (simp only: list.pred_inject simp_thms)
    apply (intro conjI)
    apply (simp_all add: canonicalize_latin1 js_def)
    done
  then have n': "\<forall>b\<in>set ?pre. match_literal latin1 b (js ''la maison'') = None"
    by (simp only: list_all_iff)
  have f: "fold (strip_article latin1) sortedArticles (js ''la maison'')
       = fold (strip_article latin1) ?post (strip_article latin1 (js ''la'') (js ''la maison''))"
    using normalizeForComparison_one_pass
      [where P = latin1 and pre = "?pre" and a = "js ''la''" and post = "?post"
         and t = "js ''la maison''",
       THEN conjunct2, THEN conjunct2, THEN conjunct2, THEN conjunct2, THEN conjunct2,
       THEN conjunct2, THEN conjunct1] s n'
    by blast
  have a: "strip_article latin1 (js ''la'') (js ''la maison'') = js ''maison''"
    by (simp add: canonicalize_latin1 strip_article_def replace_article_space_def
        replace_article_alone_def isWhiteSpace_def js_def)
  have r: "fold (strip_article latin1) sortedArticles (js ''la maison'') = js ''maison''"
    unfolding sortedArticles_units
    by (simp add: canonicalize_latin1 strip_article_def replace_article_space_def
        replace_article_alone_def isWhiteSpace_def js_def)
  have m: "list_all (\<lambda>b. match_literal latin1 b (js ''maison'') = None) sortedArticles"
    unfolding sortedArticles_units
    apply (simp only: list.pred_inject simp_thms)
    apply (intro conjI)
    apply (simp_all add: canonicalize_latin1 js_def)
    done
  then have m': "\<forall>b\<in>set sortedArticles. match_literal latin1 b (js ''maison'') = None"
    by (simp only: list_all_iff)
  have u: "fold (strip_article latin1) sortedArticles (js ''maison'') = js ''maison''"
    using normalizeForComparison_one_pass
      [where P = latin1 and t = "js ''maison''",
       THEN conjunct2, THEN conjunct2, THEN conjunct2, THEN conjunct2, THEN conjunct2,
       THEN conjunct2, THEN conjunct2, THEN conjunct1] m'
    by (rule mp)
  from s n f a r m u show ?thesis by (intro conjI)
qed

text \<open>
  C6. The articles are tried longest first: the scan order is sorted by descending length,
  is a rearrangement of the article list and starts with "de la". So "de la maison" is
  normalized to "maison": "la" does not match "de la maison", and "maison" does.
\<close>
theorem articles_longest_first:
  "sorted_wrt (\<lambda>a b. length b \<le> length a) sortedArticles
   \<and> set sortedArticles = set ARTICLES
   \<and> hd sortedArticles = js ''de la''
   \<and> normalizeForComparison latin1 (js ''de la maison'') = js ''maison''
   \<and> \<not> answersMatch latin1 (js ''la'') (js ''de la maison'')
   \<and> answersMatch latin1 (js ''maison'') (js ''de la maison'')"
proof (intro conjI)
  show "sorted_wrt (\<lambda>a b. length b \<le> length a) sortedArticles"
    unfolding sortedArticles_units by simp
  show "set sortedArticles = set ARTICLES"
    by (simp add: sortedArticles_def)
  show "hd sortedArticles = js ''de la''"
    unfolding sortedArticles_units by (simp add: js_def)
  show "normalizeForComparison latin1 (js ''de la maison'') = js ''maison''"
    by (simp add: eval_norm)
  show "\<not> answersMatch latin1 (js ''la'') (js ''de la maison'')"
    by (simp add: answersMatch_def validAnswers_def eval_match)
  show "answersMatch latin1 (js ''maison'') (js ''de la maison'')"
    by (simp add: answersMatch_def validAnswers_def eval_match)
qed

text \<open>
  C10. When the user answer and the correct answer are each one article of the list, the
  same or different ones, the matcher answers true: both normalize to the empty string.
\<close>
theorem lone_articles_match:
  "\<forall>u\<in>set ARTICLES. \<forall>v\<in>set ARTICLES. answersMatch latin1 u v"
proof (intro ballI)
  fix u v
  assume "u \<in> set ARTICLES" and "v \<in> set ARTICLES"
  then have "normalizeForComparison latin1 u = normalizeForComparison latin1 v"
    and "validAnswers v = [v]"
    using articles_alone by simp_all
  then show "answersMatch latin1 u v"
    by (simp add: answersMatch_def singleAnswerMatches_eq)
qed

theorem lone_articles_match_witness:
  "js ''le'' \<in> set ARTICLES \<and> js ''a'' \<in> set ARTICLES \<and> answersMatch latin1 (js ''le'') (js ''a'')"
proof -
  have m: "js ''le'' \<in> set ARTICLES" "js ''a'' \<in> set ARTICLES"
    by (simp_all add: ARTICLES_def)
  with lone_articles_match show ?thesis by blast
qed

lemma normalizeForComparison_blank:
  assumes "toLowerCase P [] = []" and "trim v = []"
  shows "normalizeForComparison P v = []"
proof -
  have "normalizeForComparison P v = normalizeForComparison P []"
    using assms(2) by (simp add: normalizeForComparison_eq trim_Nil)
  then show ?thesis using assms(1) by (simp add: normalizeForComparison_Nil)
qed

text \<open>
  C7, as stated, fails: the non-empty answer "le" matches "maison / ", whose variants are
  "maison" and the empty string, although it does not match "maison". A lone article is
  normalized to the empty string, which equals the normalized empty variant.
\<close>
theorem empty_variant_matches_lone_article:
  "js ''le'' \<noteq> []
   \<and> answersMatch latin1 (js ''le'') (js ''maison / '')
   \<and> validAnswers (js ''maison / '') = [js ''maison'', []]
   \<and> \<not> singleAnswerMatches latin1 (js ''le'') (js ''maison'')"
proof (intro conjI)
  show "js ''le'' \<noteq> []" by (simp add: js_def)
  show "answersMatch latin1 (js ''le'') (js ''maison / '')"
    by (simp add: answersMatch_def validAnswers_def eval_match)
  show "validAnswers (js ''maison / '') = [js ''maison'', []]"
    by (simp add: validAnswers_def trim_def isWhiteSpace_def js_def)
  show "\<not> singleAnswerMatches latin1 (js ''le'') (js ''maison'')"
    by (simp add: eval_match)
qed

text \<open>
  C7, amended. Let the user answer be non-empty after accent removal both in its trimmed
  lower-case form and in its article-normalized form (on a platform whose lower-casing and
  decomposition keep the empty string empty). Then no variant that is empty after trimming
  matches it, and \<open>answersMatch\<close> is true only if the answer matches a non-empty variant.
\<close>
theorem empty_variant_never_matches:
  assumes "toLowerCase P [] = []" and "normalizeNFD P [] = []"
    and "removeAccents P (toLowerCase P (trim u)) \<noteq> []"
    and "removeAccents P (normalizeForComparison P u) \<noteq> []"
  shows "(\<forall>v. trim v = [] \<longrightarrow> \<not> singleAnswerMatches P u v)
         \<and> (answersMatch P u c \<longrightarrow> (\<exists>v\<in>set (validAnswers c). v \<noteq> [] \<and> singleAnswerMatches P u v))"
proof -
  have blank: "\<not> singleAnswerMatches P u v" if "trim v = []" for v
  proof -
    have "normalizeForComparison P v = []"
      using assms(1) that by (rule normalizeForComparison_blank)
    moreover have "removeAccents P [] = []"
      using assms(2) by (rule removeAccents_Nil)
    moreover have "toLowerCase P (trim v) = []"
      using assms(1) that by simp
    ultimately show ?thesis
      using assms(3,4) by (auto simp add: singleAnswerMatches_eq)
  qed
  have "\<exists>v\<in>set (validAnswers c). v \<noteq> [] \<and> singleAnswerMatches P u v" if "answersMatch P u c"
  proof -
    from that obtain v where v: "v \<in> set (validAnswers c)" "singleAnswerMatches P u v"
      by (auto simp add: answersMatch_def any_valid_iff)
    have "v \<noteq> []"
    proof
      assume "v = []"
      then have "trim v = []" by (simp add: trim_Nil)
      then show False using blank v(2) by blast
    qed
    with v show ?thesis by blast
  qed
  with blank show ?thesis by blast
qed

theorem empty_variant_never_matches_witness:
  "toLowerCase latin1 [] = [] \<and> normalizeNFD latin1 [] = []
   \<and> removeAccents latin1 (toLowerCase latin1 (trim (js ''casa''))) \<noteq> []
   \<and> removeAccents latin1 (normalizeForComparison latin1 (js ''casa'')) \<noteq> []
   \<and> answersMatch latin1 (js ''casa'') (js ''casa / '')
   \<and> trim (js ''  '') = []
   \<and> \<not> singleAnswerMatches latin1 (js ''casa'') (js ''  '')
   \<and> (\<exists>v\<in>set (validAnswers (js ''casa / '')). v \<noteq> [] \<and> singleAnswerMatches latin1 (js ''casa'') v)"
proof -
  have h1: "toLowerCase latin1 [] = []" and h2: "normalizeNFD latin1 [] = []"
    by (simp_all add: latin1_sel)
  have h3: "removeAccents latin1 (toLowerCase latin1 (trim (js ''casa''))) \<noteq> []"
    by (simp add: eval_match)
  have h4: "removeAccents latin1 (normalizeForComparison latin1 (js ''casa'')) \<noteq> []"
    by (simp add: eval_match)
  have m: "answersMatch latin1 (js ''casa'') (js ''casa / '')"
    by (simp add: answersMatch_def validAnswers_def eval_match)
  have b: "trim (js ''  '') = []"
    by (simp add: trim_def isWhiteSpace_def js_def)
  from empty_variant_never_matches [OF h1 h2 h3 h4, of "js ''casa / ''"] h1 h2 h3 h4 m b
  show ?thesis by blast
qed


section \<open>Properties of the story selection\<close>

lemma floor_three_tenths: "\<lfloor>real n * 0.3\<rfloor> = (3 * int n) div 10"
proof -
  have "real n * 0.3 = real_of_int (3 * int n) / real_of_int 10" by simp
  then show ?thesis by (simp only: floor_divide_of_int_eq)
qed

lemma selection_limit_div: "selection_limit n = min 25 (max 15 ((3 * int n) div 10))"
  by (simp only: selection_limit_def floor_three_tenths)

text \<open>
  C8, as stated, fails: the code takes the floor of \<open>0.3 * N\<close>, not the nearest integer.
  Of 52 words it selects 15 (the floor of 15.6), where the specification's formula gives 16.
\<close>
theorem selection_size_floor_not_round:
  "length (selectedWords (replicate 52 \<lparr>portuguese = [], french = []\<rparr>)
                         (replicate 52 \<lparr>portuguese = [], french = []\<rparr>)) = 15
   \<and> spec_selection_size 52 = 16"
  by (simp add: selectedWords_def selection_limit_div spec_selection_size_def round_def)

text \<open>
  C8, amended. For every vocabulary of \<open>N\<close> words, in whatever order the shuffle leaves
  them, story generation selects exactly \<open>min N (clamp (floor (0.3 * N)) 15 25)\<close> words:
  15 for \<open>N = 40\<close>, 25 for \<open>N = 100\<close> and 12 for \<open>N = 12\<close>.
\<close>
theorem selectedWords_size:
  assumes "length shuffled = length words"
  shows "length (selectedWords words shuffled)
           = min (length words) (nat (min 25 (max 15 ((3 * int (length words)) div 10))))
         \<and> (length words = 40 \<longrightarrow> length (selectedWords words shuffled) = 15)
         \<and> (length words = 100 \<longrightarrow> length (selectedWords words shuffled) = 25)
         \<and> (length words = 12 \<longrightarrow> length (selectedWords words shuffled) = 12)"
  using assms by (simp add: selectedWords_def selection_limit_div)

theorem selectedWords_size_witness:
  "length (rev (replicate 40 \<lparr>portuguese = js ''casa'', french = js ''maison''\<rparr>))
     = length (replicate 40 \<lparr>portuguese = js ''casa'', french = js ''maison''\<rparr>)
   \<and> length (selectedWords (replicate 40 \<lparr>portuguese = js ''casa'', french = js ''maison''\<rparr>)
        (rev (replicate 40 \<lparr>portuguese = js ''casa'', french = js ''maison''\<rparr>))) = 15"
proof -
  let ?ws = "replicate 40 \<lparr>portuguese = js ''casa'', french = js ''maison''\<rparr>"
  have h: "length (rev ?ws) = length ?ws" by simp
  have "length ?ws = 40" by simp
  with selectedWords_size [OF h] h show ?thesis by blast
qed

section \<open>Properties of the backup import\<close>

lemma import_keys_distinct:
  "js ''examples'' \<noteq> js ''createdAt''" "js ''examples'' \<noteq> js ''updatedAt''"
  "js ''createdAt'' \<noteq> js ''updatedAt''" "js ''createdAt'' \<noteq> js ''examples''"
  "js ''updatedAt'' \<noteq> js ''examples''" "js ''updatedAt'' \<noteq> js ''createdAt''"
  by (simp_all add: js_def)

lemma get_set_prop:
  "get_prop (set_prop (Object kvs) k x) k' =
     (if k' = k then Inr x else get_prop (Object kvs) k')"
  by (simp add: update_conv')

lemma set_prop_Object: "\<exists>kvs'. set_prop (Object kvs) k x = Object kvs'"
  by simp

lemma lacks_False_Object: "lacks w k = Inr False \<Longrightarrow> \<exists>kvs. w = Object kvs"
  by (cases w) (simp_all add: lacks_def)

lemma ensure_timestamp_Object:
  "ensure_timestamp clock k (Object kvs, n) =
     (if truthy (case map_of kvs k of Some v \<Rightarrow> v | None \<Rightarrow> Undefined) then (Object kvs, n)
      else (set_prop (Object kvs) k (Number (of_int (clock n))), Suc n))"
  by (simp add: ensure_timestamp_def date_now_def)

lemma ensure_timestamp_props:
  assumes "ensure_timestamp clock k (Object kvs, n) = (w', n')"
  shows "\<exists>kvs'. w' = Object kvs'"
    and "\<And>k'. k' \<noteq> k \<Longrightarrow> get_prop w' k' = get_prop (Object kvs) k'"
    and "\<exists>c t. get_prop (Object kvs) k = Inr c
           \<and> get_prop w' k = Inr (if truthy c then c else Number (of_int (clock t)))"
  using assms by (auto simp add: ensure_timestamp_Object update_conv' split: if_splits)

lemma not_Inr_False: "x \<noteq> Inr False \<Longrightarrow> (\<exists>e. x = Inl e) \<or> x = Inr True"
  by (cases x) auto

lemma validate_word_rejects:
  assumes "lacks w (js ''id'') \<noteq> Inr False \<or> lacks w (js ''portuguese'') \<noteq> Inr False
           \<or> lacks w (js ''french'') \<noteq> Inr False"
  shows "\<exists>e. validate_word clock n w = Inl e"
proof (cases "lacks w (js ''id'') = Inr False")
  case False
  then show ?thesis
    using not_Inr_False [of "lacks w (js ''id'')"] by (auto simp add: validate_word_def)
next
  case id: True
  show ?thesis
  proof (cases "lacks w (js ''portuguese'') = Inr False")
    case False
    then show ?thesis
      using id not_Inr_False [of "lacks w (js ''portuguese'')"]
      by (auto simp add: validate_word_def)
  next
    case True
    with id assms have "lacks w (js ''french'') \<noteq> Inr False" by simp
    then show ?thesis
      using id True not_Inr_False [of "lacks w (js ''french'')"]
      by (auto simp add: validate_word_def)
  qed
qed

lemma validate_word_accepts:
  assumes "lacks w (js ''id'') = Inr False" and "lacks w (js ''portuguese'') = Inr False"
    and "lacks w (js ''french'') = Inr False"
  shows "\<exists>w' n'. validate_word clock n w = Inr (w', n') \<and> repaired clock w w'"
proof -
  obtain kvs where w: "w = Object kvs"
    using assms(1) lacks_False_Object by blast
  define w1 where "w1 = (if \<not> isArray (case map_of kvs (js ''examples'') of Some v \<Rightarrow> v | None \<Rightarrow> Undefined)
      then set_prop w (js ''examples'') (Array []) else w)"
  obtain kvs1 where w1: "w1 = Object kvs1"
    unfolding w1_def w by (cases "isArray (case map_of kvs (js ''examples'') of Some v \<Rightarrow> v | None \<Rightarrow> Undefined)") auto
  obtain w2 n2 where e2: "ensure_timestamp clock (js ''createdAt'') (w1, n) = (w2, n2)"
    by (cases "ensure_timestamp clock (js ''createdAt'') (w1, n)") auto
  obtain kvs2 where w2: "w2 = Object kvs2"
    using ensure_timestamp_props(1) [OF e2 [unfolded w1]] by blast
  obtain w3 n3 where e3: "ensure_timestamp clock (js ''updatedAt'') (w2, n2) = (w3, n3)"
    by (cases "ensure_timestamp clock (js ''updatedAt'') (w2, n2)") auto
  have v: "validate_word clock n w = Inr (w3, n3)"
    using assms e2 e3 unfolding validate_word_def w1_def w
    by (simp add: Let_def)
  have p1: "get_prop w1 k = get_prop w k" if "k \<noteq> js ''examples''" for k
    using that unfolding w1_def w by (simp add: update_conv')
  have p1e: "\<exists>ex. get_prop w (js ''examples'') = Inr ex
      \<and> get_prop w1 (js ''examples'') = Inr (if isArray ex then ex else Array [])"
    unfolding w1_def w by (simp add: update_conv')
  have p2: "get_prop w2 k = get_prop w1 k" if "k \<noteq> js ''createdAt''" for k
    using ensure_timestamp_props(2) [OF e2 [unfolded w1] that] w1 by simp
  have p2c: "\<exists>c t. get_prop w1 (js ''createdAt'') = Inr c
      \<and> get_prop w2 (js ''createdAt'') = Inr (if truthy c then c else Number (of_int (clock t)))"
    using ensure_timestamp_props(3) [OF e2 [unfolded w1]] w1 by simp
  have p3: "get_prop w3 k = get_prop w2 k" if "k \<noteq> js ''updatedAt''" for k
    using ensure_timestamp_props(2) [OF e3 [unfolded w2] that] w2 by simp
  have p3u: "\<exists>u t. get_prop w2 (js ''updatedAt'') = Inr u
      \<and> get_prop w3 (js ''updatedAt'') = Inr (if truthy u then u else Number (of_int (clock t)))"
    using ensure_timestamp_props(3) [OF e3 [unfolded w2]] w2 by simp
  have a: "\<forall>k. k \<notin> {js ''examples'', js ''createdAt'', js ''updatedAt''}
      \<longrightarrow> get_prop w3 k = get_prop w k"
    using p1 p2 p3 by simp
  have b: "\<exists>ex. get_prop w (js ''examples'') = Inr ex
      \<and> get_prop w3 (js ''examples'') = Inr (if isArray ex then ex else Array [])"
    using p1e p2 [of "js ''examples''"] p3 [of "js ''examples''"] import_keys_distinct by simp
  have c: "\<exists>c t. get_prop w (js ''createdAt'') = Inr c
      \<and> get_prop w3 (js ''createdAt'') = Inr (if truthy c then c else Number (of_int (clock t)))"
    using p2c p1 [of "js ''createdAt''"] p3 [of "js ''createdAt''"] import_keys_distinct by simp
  have d: "\<exists>u t. get_prop w (js ''updatedAt'') = Inr u
      \<and> get_prop w3 (js ''updatedAt'') = Inr (if truthy u then u else Number (of_int (clock t)))"
    using p3u p1 [of "js ''updatedAt''"] p2 [of "js ''updatedAt''"] import_keys_distinct by simp
  from v a b c d show ?thesis by blast
qed

lemma validate_words_rejects:
  "\<exists>w\<in>set words. lacks_required w \<Longrightarrow> \<exists>e. validate_words clock n words = Inl e"
proof (induction words arbitrary: n)
  case Nil
  then show ?case by simp
next
  case (Cons w ws)
  show ?case
  proof (cases "lacks_required w")
    case True
    then obtain e where "validate_word clock n w = Inl e"
      using validate_word_rejects by blast
    then show ?thesis by simp
  next
    case False
    then obtain w' n' where w': "validate_word clock n w = Inr (w', n')"
      using validate_word_accepts [of w clock n] by blast
    from False Cons.prems have "\<exists>w\<in>set ws. lacks_required w" by auto
    then obtain e where "validate_words clock n' ws = Inl e"
      using Cons.IH by blast
    with w' show ?thesis by simp
  qed
qed

lemma validate_words_accepts:
  "\<forall>w\<in>set words. \<not> lacks_required w \<Longrightarrow>
   \<exists>out. validate_words clock n words = Inr out \<and> length out = length words
     \<and> (\<forall>i<length words. repaired clock (words ! i) (out ! i))"
proof (induction words arbitrary: n)
  case Nil
  then show ?case by simp
next
  case (Cons w ws)
  from Cons.prems have "\<not> lacks_required w" by simp
  then obtain w' n' where w': "validate_word clock n w = Inr (w', n')"
    and r: "repaired clock w w'"
    using validate_word_accepts [of w clock n] by blast
  from Cons.prems have "\<forall>w\<in>set ws. \<not> lacks_required w" by simp
  then obtain out where out: "validate_words clock n' ws = Inr out" "length out = length ws"
    and rs: "\<forall>i<length ws. repaired clock (ws ! i) (out ! i)"
    using Cons.IH [of n'] by blast
  have "validate_words clock n (w # ws) = Inr (w' # out)"
    using w' out(1) by simp
  moreover have "length (w' # out) = length (w # ws)"
    using out(2) by simp
  moreover have "\<forall>i<length (w # ws). repaired clock ((w # ws) ! i) ((w' # out) ! i)"
  proof (intro allI impI)
    fix i
    assume i: "i < length (w # ws)"
    show "repaired clock ((w # ws) ! i) ((w' # out) ! i)"
    proof (cases i)
      case 0
      with r show ?thesis by simp
    next
      case (Suc j)
      with i have "j < length ws" by simp
      with rs have "repaired clock (ws ! j) (out ! j)" by blast
      with Suc show ?thesis by simp
    qed
  qed
  ultimately show ?case by blast
qed

text \<open>
  C9. Backup import throws when the parsed document has no \<open>words\<close> array, and when a word
  lacks \<open>id\<close>, \<open>portuguese\<close> or \<open>french\<close> (the test \<open>!word.key\<close>: the key is absent, or
  its string is empty). Otherwise it returns as many words as the file has, each with
  \<open>examples\<close> an array (the empty one if it was none), \<open>createdAt\<close> and \<open>updatedAt\<close> a
  reading of the clock where they were missing, and every other property as in the file.
  The result is an error or a word list, never both.
\<close>
theorem importFromJson_validates:
  "((\<forall>words. get_prop data (js ''words'') \<noteq> Inr (Array words))
      \<longrightarrow> (\<exists>e. importFromJson clock (Parsed data) = Inl e))
   \<and> (get_prop data (js ''words'') = Inr (Array words) \<and> (\<exists>w\<in>set words. lacks_required w)
      \<longrightarrow> (\<exists>e. importFromJson clock (Parsed data) = Inl e))
   \<and> (get_prop data (js ''words'') = Inr (Array words) \<and> (\<forall>w\<in>set words. \<not> lacks_required w)
      \<longrightarrow> (\<exists>out. importFromJson clock (Parsed data) = Inr out \<and> length out = length words
            \<and> (\<forall>i<length words. repaired clock (words ! i) (out ! i))))
   \<and> (map_of kvs k = None \<longrightarrow> lacks (Object kvs) k = Inr True)
   \<and> (map_of kvs k = Some (String s) \<longrightarrow> lacks (Object kvs) k = Inr (s = []))"
proof (intro conjI impI)
  assume "\<forall>words. get_prop data (js ''words'') \<noteq> Inr (Array words)"
  then show "\<exists>e. importFromJson clock (Parsed data) = Inl e"
    by (auto simp add: importFromJson_def split: sum.splits jsvalue.splits)
next
  assume "get_prop data (js ''words'') = Inr (Array words) \<and> (\<exists>w\<in>set words. lacks_required w)"
  then show "\<exists>e. importFromJson clock (Parsed data) = Inl e"
    using validate_words_rejects [of words clock 0] by (simp add: importFromJson_def)
next
  assume "get_prop data (js ''words'') = Inr (Array words) \<and> (\<forall>w\<in>set words. \<not> lacks_required w)"
  then show "\<exists>out. importFromJson clock (Parsed data) = Inr out \<and> length out = length words
            \<and> (\<forall>i<length words. repaired clock (words ! i) (out ! i))"
    using validate_words_accepts [of words clock 0] by (simp add: importFromJson_def)
next
  assume "map_of kvs k = None"
  then show "lacks (Object kvs) k = Inr True" by (simp add: lacks_def)
next
  assume "map_of kvs k = Some (String s)"
  then show "lacks (Object kvs) k = Inr (s = [])" by (simp add: lacks_def)
qed

theorem importFromJson_validates_witness:
  "get_prop (Object [(js ''version'', Number 1)]) (js ''words'') = Inr Undefined
   \<and> (\<exists>e. importFromJson (\<lambda>n. 1700000000000 + int n) (Parsed (Object [(js ''version'', Number 1)]))
          = Inl e)
   \<and> importFromJson (\<lambda>n. 1700000000000 + int n) (Parsed (Object [(js ''version'', Number 1)]))
       = Inl InvalidBackupFileFormat
   \<and> lacks (Object [(js ''id'', String (js ''w1'')), (js ''portuguese'', String (js ''casa'')),
                     (js ''french'', String [])]) (js ''french'') = Inr True
   \<and> (\<exists>e. importFromJson (\<lambda>n. 1700000000000 + int n)
            (Parsed (Object [(js ''words'', Array
               [Object [(js ''id'', String (js ''w1'')), (js ''portuguese'', String (js ''casa'')),
                        (js ''french'', String [])]])])) = Inl e)
   \<and> importFromJson (\<lambda>n. 1700000000000 + int n)
        (Parsed (Object [(js ''words'', Array
           [Object [(js ''id'', String (js ''w1'')), (js ''portuguese'', String (js ''casa'')),
                    (js ''french'', String [])]])])) = Inl InvalidWordData
   \<and> \<not> lacks_required (Object [(js ''id'', String (js ''w1'')),
                                (js ''portuguese'', String (js ''casa'')),
                                (js ''french'', String (js ''maison''))])
   \<and> (\<exists>out. importFromJson (\<lambda>n. 1700000000000 + int n)
            (Parsed (Object [(js ''version'', Number 1), (js ''words'', Array
               [Object [(js ''id'', String (js ''w1'')), (js ''portuguese'', String (js ''casa'')),
                        (js ''french'', String (js ''maison''))]])])) = Inr out
          \<and> length out = 1)
   \<and> importFromJson (\<lambda>n. 1700000000000 + int n)
        (Parsed (Object [(js ''version'', Number 1), (js ''words'', Array
           [Object [(js ''id'', String (js ''w1'')), (js ''portuguese'', String (js ''casa'')),
                    (js ''french'', String (js ''maison''))]])]))
       = Inr [Object [(js ''id'', String (js ''w1'')), (js ''portuguese'', String (js ''casa'')),
                      (js ''french'', String (js ''maison'')), (js ''examples'', Array []),
                      (js ''createdAt'', Number 1700000000000),
                      (js ''updatedAt'', Number 1700000000001)]]"
proof -
  let ?clk = "\<lambda>n. 1700000000000 + int n"
  let ?bad1 = "Object [(js ''version'', Number 1)]"
  let ?w2 = "Object [(js ''id'', String (js ''w1'')), (js ''portuguese'', String (js ''casa'')),
                     (js ''french'', String [])]"
  let ?bad2 = "Object [(js ''words'', Array [?w2])]"
  let ?w3 = "Object [(js ''id'', String (js ''w1'')), (js ''portuguese'', String (js ''casa'')),
                     (js ''french'', String (js ''maison''))]"
  let ?good = "Object [(js ''version'', Number 1), (js ''words'', Array [?w3])]"
  have a1: "get_prop ?bad1 (js ''words'') = Inr Undefined"
    by (simp add: js_def)
  then have a2: "\<forall>words. get_prop ?bad1 (js ''words'') \<noteq> Inr (Array words)"
    by simp
  have a3: "\<exists>e. importFromJson ?clk (Parsed ?bad1) = Inl e"
    using importFromJson_validates [where data = "?bad1" and clock = "?clk", THEN conjunct1] a2
    by blast
  have a4: "importFromJson ?clk (Parsed ?bad1) = Inl InvalidBackupFileFormat"
    by (simp add: importFromJson_def js_def)
  have b1: "lacks ?w2 (js ''french'') = Inr True"
    by (simp add: lacks_def js_def)
  have b2: "get_prop ?bad2 (js ''words'') = Inr (Array [?w2])"
    by simp
  have b3: "\<exists>e. importFromJson ?clk (Parsed ?bad2) = Inl e"
    using importFromJson_validates [where data = "?bad2" and words = "[?w2]" and clock = "?clk",
        THEN conjunct2, THEN conjunct1] b1 b2
    by simp
  have b4: "importFromJson ?clk (Parsed ?bad2) = Inl InvalidWordData"
    by (simp add: importFromJson_def validate_word_def lacks_def js_def)
  have c1: "\<not> lacks_required ?w3"
    by (simp add: lacks_def js_def)
  have c2: "get_prop ?good (js ''words'') = Inr (Array [?w3])"
    by (simp add: js_def)
  have c3: "\<exists>out. importFromJson ?clk (Parsed ?good) = Inr out \<and> length out = 1"
    using importFromJson_validates [where data = "?good" and words = "[?w3]" and clock = "?clk",
        THEN conjunct2, THEN conjunct2, THEN conjunct1] c1 c2
    by auto
  have c4: "importFromJson ?clk (Parsed ?good)
       = Inr [Object [(js ''id'', String (js ''w1'')), (js ''portuguese'', String (js ''casa'')),
                      (js ''french'', String (js ''maison'')), (js ''examples'', Array []),
                      (js ''createdAt'', Number 1700000000000),
                      (js ''updatedAt'', Number 1700000000001)]]"
    by (simp add: importFromJson_def validate_word_def lacks_def ensure_timestamp_def
        date_now_def js_def)
  from a1 a3 a4 b1 b3 b4 c1 c3 c4 show ?thesis by (intro conjI)
qed

section \<open>Properties of the highlight segmentation\<close>

lemma cons_first_prepend:
  "cons_first c (case alts of [] \<Rightarrow> [w] | a # as \<Rightarrow> (w @ a) # as) =
     (case alts of [] \<Rightarrow> [c # w] | a # as \<Rightarrow> ((c # w) @ a) # as)"
  by (cases alts) simp_all

lemma parse_disjunction_not_Nil: "parse_disjunction s \<noteq> Some []"
proof (induction s rule: parse_disjunction.induct)
  case 1
  show ?case by simp
next
  case (2 c cs)
  have cf: "cons_first d alts \<noteq> []" for d alts
    by (cases alts) simp_all
  show ?case
    by (auto simp add: cf split: list.splits)
qed

lemma parse_disjunction_escapeRegExp:
  "parse_disjunction (escapeRegExp w @ rest) =
     map_option (\<lambda>alts. case alts of [] \<Rightarrow> [w] | a # as \<Rightarrow> (w @ a) # as)
       (parse_disjunction rest)"
proof (induction w)
  case Nil
  show ?case
    using parse_disjunction_not_Nil [of rest]
    by (cases "parse_disjunction rest") (auto split: list.splits)
next
  case (Cons c w)
  have not92: "\<not> isSyntaxCharacter c \<Longrightarrow> c \<noteq> 92 \<and> c \<noteq> 124"
    by (auto simp add: isSyntaxCharacter_def)
  show ?case
  proof (cases "isSyntaxCharacter c")
    case True
    then show ?thesis
      using Cons.IH
      by (cases "parse_disjunction rest")
        (simp_all add: option.map_comp comp_def cons_first_prepend)
  next
    case False
    then show ?thesis
      using Cons.IH not92
      by (cases "parse_disjunction rest")
        (simp_all add: option.map_comp comp_def cons_first_prepend)
  qed
qed

lemma parse_disjunction_join_bar:
  "ps \<noteq> [] \<Longrightarrow> parse_disjunction (join_bar (map escapeRegExp ps)) = Some ps"
proof (induction ps rule: induct_list012)
  case 1
  then show ?case by simp
next
  case (2 p)
  show ?case
    using parse_disjunction_escapeRegExp [of p "[]"] by simp
next
  case (3 p q ps)
  then have "parse_disjunction (join_bar (map escapeRegExp (q # ps))) = Some (q # ps)"
    by simp
  then have "parse_disjunction (124 # join_bar (map escapeRegExp (q # ps))) = Some ([] # q # ps)"
    by simp
  then show ?case
    using parse_disjunction_escapeRegExp [of p "124 # join_bar (map escapeRegExp (q # ps))"]
    by simp
qed

lemma parse_group_parens: "parse_group (40 # body @ [41]) = parse_disjunction body"
  by (simp add: parse_group_def)

lemma sortedWords_not_Nil: "ws \<noteq> [] \<Longrightarrow> sortedWords ws \<noteq> []"
  by (metis length_0_conv length_sort sortedWords_def)

lemma highlightPattern_parses:
  assumes "usedWords sr \<noteq> []"
  shows "highlightPattern (Some sr) = RegExp (map portuguese (sortedWords (usedWords sr)))"
proof -
  let ?ps = "map portuguese (sortedWords (usedWords sr))"
  have ne: "?ps \<noteq> []" using assms sortedWords_not_Nil by simp
  have "pattern_source (usedWords sr) = 40 # join_bar (map escapeRegExp ?ps) @ [41]"
    by (simp add: pattern_source_def comp_def)
  moreover have "parse_group (40 # join_bar (map escapeRegExp ?ps) @ [41]) = Some ?ps"
    using parse_disjunction_join_bar [OF ne] by (simp only: parse_group_parens)
  ultimately show ?thesis
    using assms by (simp add: highlightPattern_def)
qed

lemma concat_split_loop: "concat (split_loop P alts piece s) = piece @ s"
proof (induction P alts piece s rule: split_loop.induct)
  case (1 P alts piece)
  show ?case by simp
next
  case (2 P alts piece c cs)
  show ?case
  proof (cases "match_alternatives P alts (c # cs)")
    case None
    with 2 show ?thesis by simp
  next
    case (Some n)
    show ?thesis
    proof (cases "n = 0 \<and> piece = []")
      case True
      with Some 2 show ?thesis by simp
    next
      case False
      have "concat (split_loop P alts [] (drop n (c # cs))) = drop n (c # cs)"
        using 2(3) [OF Some False] by simp
      moreover have "split_loop P alts piece (c # cs)
          = piece # take n (c # cs) # split_loop P alts [] (drop n (c # cs))"
        using Some False by auto
      ultimately show ?thesis
        by (simp only: concat.simps append_take_drop_id)
    qed
  qed
qed

lemma concat_regexp_split: "concat (regexp_split P alts S) = S"
  by (simp add: regexp_split_def concat_split_loop split: option.splits)

lemma concat_segment_text:
  "concat (map (segment_text \<circ> (\<lambda>part. case f part of
       Some matchedWord \<Rightarrow> Highlighted part matchedWord | None \<Rightarrow> Plain part)) parts)
     = concat parts"
  by (induction parts) (auto split: option.splits)

text \<open>
  C3. For every story and every list of used words, the segments that
  \<open>renderStoryWithHighlights\<close> produces exist (the pattern built from the words always
  compiles) and their texts, concatenated in order, are exactly the story.
\<close>
theorem highlight_segments_reconstruct_story:
  "\<exists>segments. renderStoryWithHighlights P (Some sr) = Some segments
     \<and> concat (map segment_text segments) = story sr"
proof (cases "usedWords sr = []")
  case True
  then show ?thesis
    by (simp add: renderStoryWithHighlights_def highlightPattern_def)
next
  case False
  then have "highlightPattern (Some sr) = RegExp (map portuguese (sortedWords (usedWords sr)))"
    by (rule highlightPattern_parses)
  then show ?thesis
    by (simp add: renderStoryWithHighlights_def concat_segment_text concat_regexp_split)
qed

lemma match_alternatives_longest:
  assumes "sorted_wrt (\<lambda>a b. length b \<le> length a) alts"
    and "match_alternatives P alts s = Some n"
    and "a \<in> set alts" and "match_literal P a s \<noteq> None"
  shows "length a \<le> n"
  using assms
proof (induction alts)
  case Nil
  then show ?case by simp
next
  case (Cons b bs)
  show ?case
  proof (cases "match_literal P b s")
    case None
    with Cons.prems have "a \<in> set bs" and "match_alternatives P bs s = Some n"
      and "sorted_wrt (\<lambda>a b. length b \<le> length a) bs"
      by auto
    with Cons.IH Cons.prems(4) show ?thesis by blast
  next
    case (Some rest)
    with Cons.prems(2) have "n = length b" by simp
    with Cons.prems(1,3) show ?thesis by auto
  qed
qed

lemma sortedWords_sorted:
  "sorted_wrt (\<lambda>a b. length b \<le> length a) (map portuguese (sortedWords ws))"
proof -
  have "sorted (map (\<lambda>w. - int (length (portuguese w))) (sortedWords ws))"
    unfolding sortedWords_def by (rule sorted_sort_key)
  then show ?thesis
    by (simp add: sorted_wrt_map)
qed

lemma sortedWords_set: "set (sortedWords ws) = set ws"
  by (simp add: sortedWords_def)

lemma match_alternatives_Nil: "match_alternatives P alts [] = Some n \<Longrightarrow> n = 0"
proof (induction alts)
  case Nil
  then show ?case by simp
next
  case (Cons a as)
  then show ?case by (cases a) (auto split: option.splits)
qed

lemma split_loop_first_match:
  assumes "\<forall>i<length pre. match_alternatives P alts (drop i (pre @ rest)) = None"
    and "match_alternatives P alts rest = Some n" and "0 < n"
  shows "split_loop P alts piece (pre @ rest)
           = (piece @ pre) # take n rest # split_loop P alts [] (drop n rest)"
  using assms(1)
proof (induction pre arbitrary: piece)
  case Nil
  from assms(2,3) obtain c cs where "rest = c # cs"
    using match_alternatives_Nil by (cases rest) auto
  with assms(2,3) show ?case by simp
next
  case (Cons x xs)
  from Cons.prems have "match_alternatives P alts (drop 0 ((x # xs) @ rest)) = None"
    by blast
  then have none: "match_alternatives P alts (x # xs @ rest) = None" by simp
  have "\<forall>i<length xs. match_alternatives P alts (drop i (xs @ rest)) = None"
  proof (intro allI impI)
    fix i
    assume "i < length xs"
    then have "Suc i < length (x # xs)" by simp
    with Cons.prems have "match_alternatives P alts (drop (Suc i) ((x # xs) @ rest)) = None"
      by blast
    then show "match_alternatives P alts (drop i (xs @ rest)) = None" by simp
  qed
  then have "split_loop P alts (piece @ [x]) (xs @ rest)
           = ((piece @ [x]) @ xs) # take n rest # split_loop P alts [] (drop n rest)"
    by (rule Cons.IH)
  with none show ?case by simp
qed

lemma regexp_split_first_match:
  assumes "\<forall>i<length pre. match_alternatives P alts (drop i (pre @ rest)) = None"
    and "match_alternatives P alts rest = Some n" and "0 < n"
  shows "regexp_split P alts (pre @ rest) = pre # take n rest # split_loop P alts [] (drop n rest)"
proof -
  from assms(2,3) have "rest \<noteq> []"
    using match_alternatives_Nil by auto
  then show ?thesis
    using split_loop_first_match [OF assms, of "[]"] by (simp add: regexp_split_def)
qed

lemmas eval_highlight = renderStoryWithHighlights_def highlightPattern_def pattern_source_def
  sortedWords_def isSyntaxCharacter_def parse_group_def regexp_split_def findMatchedWord_def
  canonicalize_latin1 latin1_sel latin1_lower_def js_def

text \<open>
  C4, as stated, fails: with the vocabulary "mama", "mamae" the first is a prefix of the
  second, and in the story "mamamae" the longer phrase stands at index 2; but the scan
  goes from left to right, "mama" matches at index 0, and the segments are the empty text,
  "mama" and the plain text "mae". The longer phrase is fragmented.
\<close>
theorem highlight_shorter_phrase_fragments_longer:
  "prefix (js ''mama'') (js ''mamae'')
   \<and> match_literal latin1 (js ''mamae'') (drop 2 (js ''mamamae'')) = Some []
   \<and> renderStoryWithHighlights latin1
        (Some \<lparr>story = js ''mamamae'',
               usedWords = [\<lparr>portuguese = js ''mama'', french = js ''maman''\<rparr>,
                            \<lparr>portuguese = js ''mamae'', french = js ''mere''\<rparr>]\<rparr>)
       = Some [Plain [],
               Highlighted (js ''mama'') \<lparr>portuguese = js ''mama'', french = js ''maman''\<rparr>,
               Plain (js ''mae'')]"
proof (intro conjI)
  show "prefix (js ''mama'') (js ''mamae'')"
    by (simp add: js_def)
  show "match_literal latin1 (js ''mamae'') (drop 2 (js ''mamamae'')) = Some []"
    by (simp add: canonicalize_latin1 js_def)
  show "renderStoryWithHighlights latin1
        (Some \<lparr>story = js ''mamamae'',
               usedWords = [\<lparr>portuguese = js ''mama'', french = js ''maman''\<rparr>,
                            \<lparr>portuguese = js ''mamae'', french = js ''mere''\<rparr>]\<rparr>)
       = Some [Plain [],
               Highlighted (js ''mama'') \<lparr>portuguese = js ''mama'', french = js ''maman''\<rparr>,
               Plain (js ''mae'')]"
    by (simp add: eval_highlight)
qed

text \<open>
  C4, amended. The alternation is built from the phrases sorted by descending length: the
  pattern compiles to exactly these phrases in this order, so at every position where the
  pattern is tried the alternative taken is at least as long as every phrase that matches
  at that position; a phrase that is a prefix of another never wins over it there. The
  leftmost match, from the start of the story or from the end of the match before, becomes
  one segment, whole, so a shorter phrase inside it ("grande" in "casa grande") is not
  matched on its own. For the vocabulary "casa", "casa grande" and the story
  "a casa grande (U+00E9) bonita" the matched segment is "casa grande"; in the order
  given, without the sort, "casa" would be taken first. Nothing is promised for a longer
  phrase that starts inside an earlier match.
\<close>
theorem highlight_prefers_longer_phrase:
  "(usedWords sr \<noteq> [] \<longrightarrow>
      highlightPattern (Some sr) = RegExp (map portuguese (sortedWords (usedWords sr))))
   \<and> sorted_wrt (\<lambda>a b. length b \<le> length a) (map portuguese (sortedWords (usedWords sr)))
   \<and> (match_alternatives P (map portuguese (sortedWords (usedWords sr))) s = Some n \<longrightarrow>
        (\<forall>w\<in>set (usedWords sr). match_literal P (portuguese w) s \<noteq> None
           \<longrightarrow> length (portuguese w) \<le> n))
   \<and> renderStoryWithHighlights latin1
        (Some \<lparr>story = js ''a casa grande '' @ [233] @ js '' bonita'',
               usedWords = [\<lparr>portuguese = js ''casa'', french = js ''maison''\<rparr>,
                            \<lparr>portuguese = js ''casa grande'', french = js ''grande maison''\<rparr>]\<rparr>)
       = Some [Plain (js ''a ''),
               Highlighted (js ''casa grande'')
                 \<lparr>portuguese = js ''casa grande'', french = js ''grande maison''\<rparr>,
               Plain (js '' '' @ [233] @ js '' bonita'')]
   \<and> match_alternatives latin1 [js ''casa grande'', js ''casa''] (js ''casa grande'') = Some 11
   \<and> match_alternatives latin1 [js ''casa'', js ''casa grande''] (js ''casa grande'') = Some 4
   \<and> ((\<forall>i<length pre. match_alternatives P (map portuguese (sortedWords (usedWords sr)))
                           (drop i (pre @ s)) = None)
        \<and> match_alternatives P (map portuguese (sortedWords (usedWords sr))) s = Some n
        \<and> 0 < n \<longrightarrow>
        regexp_split P (map portuguese (sortedWords (usedWords sr))) (pre @ s)
          = pre # take n s
              # split_loop P (map portuguese (sortedWords (usedWords sr))) [] (drop n s))
   \<and> renderStoryWithHighlights latin1
        (Some \<lparr>story = js ''a casa grande'',
               usedWords = [\<lparr>portuguese = js ''grande'', french = js ''grand''\<rparr>,
                            \<lparr>portuguese = js ''casa grande'', french = js ''grande maison''\<rparr>]\<rparr>)
       = Some [Plain (js ''a ''),
               Highlighted (js ''casa grande'')
                 \<lparr>portuguese = js ''casa grande'', french = js ''grande maison''\<rparr>,
               Plain []]
   \<and> ((\<forall>i<length pre. match_alternatives P (map portuguese (sortedWords (usedWords sr)))
                           (drop i (pre @ s)) = None)
        \<and> match_alternatives P (map portuguese (sortedWords (usedWords sr))) s = Some n
        \<and> 0 < n \<longrightarrow>
        split_loop P (map portuguese (sortedWords (usedWords sr))) piece (pre @ s)
          = (piece @ pre) # take n s
              # split_loop P (map portuguese (sortedWords (usedWords sr))) [] (drop n s))"
proof (intro conjI impI ballI)
  assume "usedWords sr \<noteq> []"
  then show "highlightPattern (Some sr) = RegExp (map portuguese (sortedWords (usedWords sr)))"
    by (rule highlightPattern_parses)
next
  show "sorted_wrt (\<lambda>a b. length b \<le> length a) (map portuguese (sortedWords (usedWords sr)))"
    by (rule sortedWords_sorted)
next
  fix w
  assume "match_alternatives P (map portuguese (sortedWords (usedWords sr))) s = Some n"
    and "w \<in> set (usedWords sr)" and "match_literal P (portuguese w) s \<noteq> None"
  moreover have "portuguese w \<in> set (map portuguese (sortedWords (usedWords sr)))"
    if "w \<in> set (usedWords sr)"
    using that by (simp add: sortedWords_set)
  ultimately show "length (portuguese w) \<le> n"
    using match_alternatives_longest [OF sortedWords_sorted] by blast
next
  show "renderStoryWithHighlights latin1
        (Some \<lparr>story = js ''a casa grande '' @ [233] @ js '' bonita'',
               usedWords = [\<lparr>portuguese = js ''casa'', french = js ''maison''\<rparr>,
                            \<lparr>portuguese = js ''casa grande'', french = js ''grande maison''\<rparr>]\<rparr>)
       = Some [Plain (js ''a ''),
               Highlighted (js ''casa grande'')
                 \<lparr>portuguese = js ''casa grande'', french = js ''grande maison''\<rparr>,
               Plain (js '' '' @ [233] @ js '' bonita'')]"
    by (simp add: eval_highlight)
next
  show "match_alternatives latin1 [js ''casa grande'', js ''casa''] (js ''casa grande'') = Some 11"
    by (simp add: canonicalize_latin1 js_def)
next
  show "match_alternatives latin1 [js ''casa'', js ''casa grande''] (js ''casa grande'') = Some 4"
    by (simp add: canonicalize_latin1 js_def)
next
  assume "(\<forall>i<length pre. match_alternatives P (map portuguese (sortedWords (usedWords sr)))
                           (drop i (pre @ s)) = None)
        \<and> match_alternatives P (map portuguese (sortedWords (usedWords sr))) s = Some n
        \<and> 0 < n"
  then show "regexp_split P (map portuguese (sortedWords (usedWords sr))) (pre @ s)
          = pre # take n s
              # split_loop P (map portuguese (sortedWords (usedWords sr))) [] (drop n s)"
    using regexp_split_first_match by blast
next
  show "renderStoryWithHighlights latin1
        (Some \<lparr>story = js ''a casa grande'',
               usedWords = [\<lparr>portuguese = js ''grande'', french = js ''grand''\<rparr>,
                            \<lparr>portuguese = js ''casa grande'', french = js ''grande maison''\<rparr>]\<rparr>)
       = Some [Plain (js ''a ''),
               Highlighted (js ''casa grande'')
                 \<lparr>portuguese = js ''casa grande'', french = js ''grande maison''\<rparr>,
               Plain []]"
    by (simp add: eval_highlight)
next
  assume "(\<forall>i<length pre. match_alternatives P (map portuguese (sortedWords (usedWords sr)))
                           (drop i (pre @ s)) = None)
        \<and> match_alternatives P (map portuguese (sortedWords (usedWords sr))) s = Some n
        \<and> 0 < n"
  then show "split_loop P (map portuguese (sortedWords (usedWords sr))) piece (pre @ s)
          = (piece @ pre) # take n s
              # split_loop P (map portuguese (sortedWords (usedWords sr))) [] (drop n s)"
    using split_loop_first_match by blast
qed

theorem highlight_prefers_longer_phrase_witness:
  "usedWords \<lparr>story = js ''a casa grande'',
              usedWords = [\<lparr>portuguese = js ''casa'', french = js ''maison''\<rparr>,
                           \<lparr>portuguese = js ''casa grande'', french = js ''grande maison''\<rparr>]\<rparr> \<noteq> []
   \<and> highlightPattern
        (Some \<lparr>story = js ''a casa grande'',
               usedWords = [\<lparr>portuguese = js ''casa'', french = js ''maison''\<rparr>,
                            \<lparr>portuguese = js ''casa grande'', french = js ''grande maison''\<rparr>]\<rparr>)
       = RegExp [js ''casa grande'', js ''casa'']
   \<and> match_alternatives latin1 [js ''casa grande'', js ''casa''] (js ''casa grande'') = Some 11
   \<and> match_literal latin1 (js ''casa'') (js ''casa grande'') \<noteq> None
   \<and> length (js ''casa'') \<le> 11
   \<and> match_alternatives latin1 [js ''casa grande'', js ''casa''] (js ''a casa grande'') = None
   \<and> match_alternatives latin1 [js ''casa grande'', js ''casa''] (js '' casa grande'') = None
   \<and> regexp_split latin1 [js ''casa grande'', js ''casa''] (js ''a casa grande'')
       = [js ''a '', js ''casa grande'', []]
   \<and> split_loop latin1 [js ''casa grande'', js ''casa''] (js ''um'') (js ''a casa grande'')
       = [js ''uma '', js ''casa grande'', []]"
proof -
  let ?w1 = "\<lparr>portuguese = js ''casa'', french = js ''maison''\<rparr>"
  let ?w2 = "\<lparr>portuguese = js ''casa grande'', french = js ''grande maison''\<rparr>"
  let ?sr = "\<lparr>story = js ''a casa grande'', usedWords = [?w1, ?w2]\<rparr>"
  note t = highlight_prefers_longer_phrase
    [where sr = "?sr" and P = latin1 and s = "js ''casa grande''" and n = 11
       and pre = "js ''a ''" and piece = "js ''um''"]
  have sorted: "map portuguese (sortedWords (usedWords ?sr)) = [js ''casa grande'', js ''casa'']"
    by (simp add: sortedWords_def js_def)
  have h1: "usedWords ?sr \<noteq> []" by simp
  have h2: "match_alternatives latin1 [js ''casa grande'', js ''casa''] (js ''casa grande'') = Some 11"
    by (simp add: canonicalize_latin1 js_def)
  have h3: "?w1 \<in> set (usedWords ?sr)" by simp
  have h4: "match_literal latin1 (js ''casa'') (js ''casa grande'') \<noteq> None"
    by (simp add: canonicalize_latin1 js_def)
  have "highlightPattern (Some ?sr) = RegExp (map portuguese (sortedWords (usedWords ?sr)))"
    using t [THEN conjunct1] h1 by (rule mp)
  then have c1: "highlightPattern (Some ?sr) = RegExp [js ''casa grande'', js ''casa'']"
    by (simp only: sorted)
  have h2': "match_alternatives latin1 (map portuguese (sortedWords (usedWords ?sr)))
               (js ''casa grande'') = Some 11"
    using h2 by (simp only: sorted)
  have "\<forall>w\<in>set (usedWords ?sr). match_literal latin1 (portuguese w) (js ''casa grande'') \<noteq> None
           \<longrightarrow> length (portuguese w) \<le> 11"
    using t [THEN conjunct2, THEN conjunct2, THEN conjunct1] h2' by (rule mp)
  then have "match_literal latin1 (portuguese ?w1) (js ''casa grande'') \<noteq> None
           \<longrightarrow> length (portuguese ?w1) \<le> 11"
    using h3 by (rule bspec)
  then have c2: "length (js ''casa'') \<le> 11"
    using h4 by simp
  have n0: "match_alternatives latin1 [js ''casa grande'', js ''casa''] (js ''a casa grande'') = None"
    and n1: "match_alternatives latin1 [js ''casa grande'', js ''casa''] (js '' casa grande'') = None"
    by (simp_all add: canonicalize_latin1 js_def)
  have none: "\<forall>i<length (js ''a ''). match_alternatives latin1
      (map portuguese (sortedWords (usedWords ?sr))) (drop i (js ''a '' @ js ''casa grande'')) = None"
  proof (intro allI impI)
    fix i
    assume "i < length (js ''a '')"
    then have "i = 0 \<or> i = 1" by (auto simp add: js_def)
    then show "match_alternatives latin1 (map portuguese (sortedWords (usedWords ?sr)))
        (drop i (js ''a '' @ js ''casa grande'')) = None"
      using n0 n1 by (auto simp only: sorted) (simp_all add: js_def)
  qed
  have "regexp_split latin1 (map portuguese (sortedWords (usedWords ?sr)))
          (js ''a '' @ js ''casa grande'')
        = js ''a '' # take 11 (js ''casa grande'')
            # split_loop latin1 (map portuguese (sortedWords (usedWords ?sr))) []
                (drop 11 (js ''casa grande''))"
    using t [THEN conjunct2, THEN conjunct2, THEN conjunct2, THEN conjunct2, THEN conjunct2,
        THEN conjunct2, THEN conjunct1] none h2'
    by simp
  then have "regexp_split latin1 [js ''casa grande'', js ''casa''] (js ''a '' @ js ''casa grande'')
        = js ''a '' # take 11 (js ''casa grande'')
            # split_loop latin1 [js ''casa grande'', js ''casa''] [] (drop 11 (js ''casa grande''))"
    by (simp only: sorted)
  then have c3: "regexp_split latin1 [js ''casa grande'', js ''casa''] (js ''a casa grande'')
       = [js ''a '', js ''casa grande'', []]"
    by (simp add: js_def)
  have "split_loop latin1 (map portuguese (sortedWords (usedWords ?sr))) (js ''um'')
          (js ''a '' @ js ''casa grande'')
        = (js ''um'' @ js ''a '') # take 11 (js ''casa grande'')
            # split_loop latin1 (map portuguese (sortedWords (usedWords ?sr))) []
                (drop 11 (js ''casa grande''))"
    using t [THEN conjunct2, THEN conjunct2, THEN conjunct2, THEN conjunct2, THEN conjunct2,
        THEN conjunct2, THEN conjunct2, THEN conjunct2] none h2'
    by simp
  then have "split_loop latin1 [js ''casa grande'', js ''casa''] (js ''um'')
          (js ''a '' @ js ''casa grande'')
        = (js ''um'' @ js ''a '') # take 11 (js ''casa grande'')
            # split_loop latin1 [js ''casa grande'', js ''casa''] [] (drop 11 (js ''casa grande''))"
    by (simp only: sorted)
  then have c4: "split_loop latin1 [js ''casa grande'', js ''casa''] (js ''um'')
          (js ''a casa grande'') = [js ''uma '', js ''casa grande'', []]"
    by (simp add: js_def)
  from h1 c1 h2 h4 c2 n0 n1 c3 c4 show ?thesis by (intro conjI)
qed

end
